theory Spec2Isabelle
  imports Main "HOL-Library.Word"
begin

text \<open>
  The component \<open>App\<close> of \<open>src/App.jsx\<close>: its state hooks are the fields of a
  record, its handlers are functions from state to state, and what the environment
  answers (the storage, \<open>fetch\<close>, the random draw, the printing of a number) is an
  argument of the function that asks for it. A call that may throw returns a sum, so
  that every \<open>try\<close> and \<open>catch\<close> of the source is a branch here.
\<close>

section \<open>Strings, thrown values and the persistent store\<close>

text \<open>
  A JavaScript string is a sequence of 16-bit code units. \<open>lit\<close> writes an ASCII
  literal of the source as such a sequence.
\<close>

type_synonym code_unit = "16 word"
type_synonym jsstring = "code_unit list"

definition lit :: "string \<Rightarrow> jsstring" where
  "lit s = map (\<lambda>c. of_nat (of_char c)) s"

text \<open>
  A thrown value is seen by the program only through \<open>e?.message\<close>: \<open>None\<close> when
  the value is nullish or carries no message. A call that may throw returns
  \<open>exn + 'a\<close>, with \<open>Inl\<close> for the throw.
\<close>

datatype exn = Exn "jsstring option"

definition LS_KEY :: jsstring where
  "LS_KEY = lit ''likedQuotes_v2''"

definition THEME_KEY :: jsstring where
  "THEME_KEY = lit ''theme_v1''"

text \<open>
  \<open>localStorage\<close>: a map from keys to strings. \<open>read_fails\<close> and \<open>write_fails\<close>
  hold the value a read or a write throws in this session (a blocked or a full
  storage), \<open>None\<close> when the call goes through.
\<close>

record storage =
  read_fails :: "exn option"
  write_fails :: "exn option"
  items :: "jsstring \<Rightarrow> jsstring option"

definition getItem :: "storage \<Rightarrow> jsstring \<Rightarrow> exn + jsstring option" where
  "getItem st k = (case read_fails st of Some e \<Rightarrow> Inl e | None \<Rightarrow> Inr (items st k))"

definition setItem :: "storage \<Rightarrow> jsstring \<Rightarrow> jsstring \<Rightarrow> exn + storage" where
  "setItem st k v =
     (case write_fails st of
        Some e \<Rightarrow> Inl e
      | None \<Rightarrow> Inr (st\<lparr>items := (items st)(k \<mapsto> v)\<rparr>))"

text \<open>\<^verbatim>\<open>try { ... } catch { ... }\<close>: the handler runs on what the body throws.\<close>

definition try_catch :: "exn + 'a \<Rightarrow> (exn \<Rightarrow> exn + 'a) \<Rightarrow> exn + 'a" where
  "try_catch body handler = (case body of Inl e \<Rightarrow> handler e | Inr v \<Rightarrow> Inr v)"

section \<open>JSON values\<close>

text \<open>
  The values \<open>JSON.parse\<close> returns. A number is kept as the text of its literal
  (the program never computes with one). The members of an object are listed in the
  order in which its properties are created.
\<close>

datatype json =
    JNull
  | JBool bool
  | JNum jsstring
  | JStr jsstring
  | JArr "json list"
  | JObj "(jsstring \<times> json) list"

section \<open>The application state\<close>

text \<open>
  A quote object \<open>{ _id, content, author }\<close>; the field \<open>qid\<close> is the property
  \<open>_id\<close>. The three properties hold strings: \<open>_id\<close> is made by \<open>String\<close>, the
  other two are the text fields of the quote service. The liked list is an array of
  such objects, newest first.
\<close>

record Quote =
  qid :: jsstring
  content :: jsstring
  author :: jsstring

record Character =
  name :: jsstring
  img :: jsstring
  vibe :: jsstring

definition CHARACTERS :: "Character list" where
  "CHARACTERS =
     [\<lparr>name = lit ''Goku'', img = lit ''/characters/goku.jpg'', vibe = lit ''Never Give Up''\<rparr>,
      \<lparr>name = lit ''Jinwoo'', img = lit ''/characters/jinwoo.jpg'', vibe = lit ''Level Up Mindset''\<rparr>,
      \<lparr>name = lit ''Saitama'', img = lit ''/characters/saitama.jpg'', vibe = lit ''Calm Power''\<rparr>,
      \<lparr>name = lit ''Gojo'', img = lit ''/characters/satorugojo.jpg'', vibe = lit ''Limitless Focus''\<rparr>,
      \<lparr>name = lit ''Tanjiro'', img = lit ''/characters/tanjiro.png'',
       vibe = lit ''Kind but Unbreakable''\<rparr>]"

text \<open>
  The state hooks of \<open>App\<close>. \<open>quote\<close> is \<open>None\<close> while it is \<open>null\<close>;
  \<open>character\<close> is \<open>None\<close> where an array read past the end would give
  \<open>undefined\<close>.
\<close>

record app_state =
  quote :: "Quote option"
  loading :: bool
  error :: jsstring
  theme :: jsstring
  likedQuotes :: "Quote list"
  character :: "Character option"
  sceneKey :: int

text \<open>An array read \<open>xs[i]\<close>: \<open>None\<close> stands for \<open>undefined\<close>.\<close>

definition at_index :: "'a list \<Rightarrow> nat \<Rightarrow> 'a option" where
  "at_index xs i = (if i < length xs then Some (xs ! i) else None)"

text \<open>
  The state of the first render, for the theme and the liked list that the two
  initializers gave: \<open>useState(null)\<close>, \<open>useState(false)\<close>, \<open>useState("")\<close>,
  \<open>useState(() => CHARACTERS[0])\<close>, \<open>useState(0)\<close>.
\<close>

definition initial_state :: "jsstring \<Rightarrow> Quote list \<Rightarrow> app_state" where
  "initial_state t qs =
     \<lparr>quote = None, loading = False, error = [], theme = t, likedQuotes = qs,
      character = at_index CHARACTERS 0, sceneKey = 0\<rparr>"

section \<open>Theme\<close>

text \<open>
  The initializer of the \<open>theme\<close> state:
  \<^verbatim>\<open>try { return localStorage.getItem(THEME_KEY) || "dark"; } catch { return "dark"; }\<close>
  \<open>||\<close> takes its right operand when the left one is \<open>null\<close> or the empty string.
\<close>

definition theme_init :: "storage \<Rightarrow> exn + jsstring" where
  "theme_init st =
     try_catch
       (case getItem st THEME_KEY of
          Inl e \<Rightarrow> Inl e
        | Inr None \<Rightarrow> Inr (lit ''dark'')
        | Inr (Some t) \<Rightarrow> Inr (if t = [] then lit ''dark'' else t))
       (\<lambda>e. Inr (lit ''dark''))"

text \<open>
  The theme button: \<^verbatim>\<open>setTheme((t) => (t === "dark" ? "light" : "dark"))\<close>.
\<close>

definition toggleTheme :: "app_state \<Rightarrow> app_state" where
  "toggleTheme s =
     s\<lparr>theme := (if theme s = lit ''dark'' then lit ''light'' else lit ''dark'')\<rparr>"

text \<open>The effect run when the theme changes; a failing write is swallowed.\<close>

definition persist_theme :: "jsstring \<Rightarrow> storage \<Rightarrow> storage" where
  "persist_theme t st = (case setItem st THEME_KEY t of Inl e \<Rightarrow> st | Inr st' \<Rightarrow> st')"

section \<open>The liked list\<close>

text \<open>\<^verbatim>\<open>new Set(likedQuotes.map((q) => q._id))\<close>\<close>

definition likedIds :: "Quote list \<Rightarrow> jsstring set" where
  "likedIds qs = set (map qid qs)"

text \<open>\<^verbatim>\<open>quote ? likedIds.has(quote._id) : false\<close>\<close>

definition isCurrentLiked :: "app_state \<Rightarrow> bool" where
  "isCurrentLiked s =
     (case quote s of None \<Rightarrow> False | Some q \<Rightarrow> qid q \<in> likedIds (likedQuotes s))"

text \<open>
  \<open>toggleLike\<close> reads the current quote and updates the liked list from its
  previous value:
  \<^verbatim>\<open>
  if (!quote) return;
  setLikedQuotes((prev) => {
    const exists = prev.some((q) => q._id === quote._id);
    if (exists) return prev.filter((q) => q._id !== quote._id);
    return [{ _id: quote._id, content: quote.content, author: quote.author }, ...prev];
  });
  \<close>
\<close>

definition toggleLike :: "app_state \<Rightarrow> app_state" where
  "toggleLike s =
     (case quote s of
        None \<Rightarrow> s
      | Some q \<Rightarrow>
          s\<lparr>likedQuotes :=
              (let prev = likedQuotes s;
                   exists = list_ex (\<lambda>p. qid p = qid q) prev
               in if exists then filter (\<lambda>p. qid p \<noteq> qid q) prev
                  else \<lparr>qid = qid q, content = content q, author = author q\<rparr> # prev)\<rparr>)"

text \<open>\<^verbatim>\<open>setLikedQuotes((prev) => prev.filter((q) => q._id !== id))\<close>\<close>

definition removeLiked :: "jsstring \<Rightarrow> app_state \<Rightarrow> app_state" where
  "removeLiked i s = s\<lparr>likedQuotes := filter (\<lambda>q. qid q \<noteq> i) (likedQuotes s)\<rparr>"

text \<open>\<^verbatim>\<open>setLikedQuotes([])\<close>\<close>

definition clearLiked :: "app_state \<Rightarrow> app_state" where
  "clearLiked s = s\<lparr>likedQuotes := []\<rparr>"

text \<open>The invariant of the liked list: no two entries carry the same \<open>_id\<close>.\<close>

definition no_duplicate_ids :: "Quote list \<Rightarrow> bool" where
  "no_duplicate_ids qs = distinct (map qid qs)"

text \<open>Two quotes for the examples.\<close>

definition quote_1 :: Quote where
  "quote_1 = \<lparr>qid = lit ''1'', content = lit ''A'', author = lit ''X''\<rparr>"

definition quote_2 :: Quote where
  "quote_2 = \<lparr>qid = lit ''2'', content = lit ''B'', author = lit ''Y''\<rparr>"

section \<open>Loading and saving the liked list\<close>

text \<open>
  The initializer of the \<open>likedQuotes\<close> state, for the \<open>JSON.parse\<close> of the engine
  (\<open>parse\<close>, which throws on a text that is not JSON):
  \<^verbatim>\<open>
  try {
    const raw = localStorage.getItem(LS_KEY);
    return raw ? JSON.parse(raw) : [];
  } catch { return []; }
  \<close>
  \<open>raw\<close> is falsy when it is \<open>null\<close> or the empty string.
\<close>

definition likedQuotes_init :: "(jsstring \<Rightarrow> exn + json) \<Rightarrow> storage \<Rightarrow> exn + json" where
  "likedQuotes_init parse st =
     try_catch
       (case getItem st LS_KEY of
          Inl e \<Rightarrow> Inl e
        | Inr None \<Rightarrow> Inr (JArr [])
        | Inr (Some raw) \<Rightarrow> (if raw = [] then Inr (JArr []) else parse raw))
       (\<lambda>e. Inr (JArr []))"

text \<open>
  The effect run when \<open>likedQuotes\<close> changes, for the \<open>JSON.stringify\<close> of the
  engine; a failing write is swallowed:
  \<^verbatim>\<open>try { localStorage.setItem(LS_KEY, JSON.stringify(likedQuotes)); } catch {}\<close>
\<close>

definition persist_liked :: "(Quote list \<Rightarrow> jsstring) \<Rightarrow> Quote list \<Rightarrow> storage \<Rightarrow> storage" where
  "persist_liked stringify qs st =
     (case setItem st LS_KEY (stringify qs) of Inl e \<Rightarrow> st | Inr st' \<Rightarrow> st')"

text \<open>
  What the first render does with the loaded value, whatever it is:
  \<^verbatim>\<open>new Set(likedQuotes.map((q) => q._id))\<close>.
  \<open>q._id\<close> throws a \<open>TypeError\<close> (\<open>err\<close>) when \<open>q\<close> is \<open>null\<close>, is the
  property of an object, and is \<open>undefined\<close> (\<open>None\<close>) for an object without it and for
  every other value.
\<close>

fun property_id :: "exn \<Rightarrow> json \<Rightarrow> exn + json option" where
  "property_id err JNull = Inl err"
| "property_id err (JObj ms) = Inr (map_of ms (lit ''_id''))"
| "property_id err v = Inr None"

text \<open>\<open>xs.map(f)\<close> for a callback that may throw: the first throw ends the loop.\<close>

fun map_throwing :: "('a \<Rightarrow> exn + 'b) \<Rightarrow> 'a list \<Rightarrow> exn + 'b list" where
  "map_throwing f [] = Inr []"
| "map_throwing f (x # xs) =
     (case f x of
        Inl e \<Rightarrow> Inl e
      | Inr y \<Rightarrow> (case map_throwing f xs of Inl e \<Rightarrow> Inl e | Inr ys \<Rightarrow> Inr (y # ys)))"

text \<open>
  Only an array has a \<open>map\<close> to call: on \<open>null\<close> reading \<open>.map\<close> throws, and on
  any other value \<open>.map\<close> is not a function (a JSON object can hold a member of that
  name, never a function), so the call throws a \<open>TypeError\<close> as well.
\<close>

fun render_likedIds :: "exn \<Rightarrow> json \<Rightarrow> exn + json option list" where
  "render_likedIds err (JArr vs) = map_throwing (property_id err) vs"
| "render_likedIds err v = Inl err"

section \<open>Fetching a quote\<close>

text \<open>
  The body the quote service answers with, once \<open>res.json()\<close> has parsed it: an
  \<open>id\<close> that is a number or a string, the quote's text and its author.
\<close>

datatype remote_id = IdNum int | IdStr jsstring

record api_data =
  data_id :: remote_id
  data_quote :: jsstring
  data_author :: jsstring

text \<open>
  What \<open>fetch\<close> resolves to: the flag \<open>res.ok\<close> and what \<open>res.json()\<close> gives when
  it is awaited (it rejects on a body that is not JSON).
\<close>

record response =
  ok :: bool
  body_json :: "exn + api_data"

text \<open>
  \<open>String(data.id)\<close>: a string is itself, a number is printed by the engine's
  \<open>Number::toString\<close>, the parameter \<open>num\<close>.
\<close>

fun String_js :: "(int \<Rightarrow> jsstring) \<Rightarrow> remote_id \<Rightarrow> jsstring" where
  "String_js num (IdNum n) = num n"
| "String_js num (IdStr s) = s"

text \<open>
  The decimal digits of an integer, with a minus sign below zero. This is what
  \<open>Number::toString\<close> prints for an integer of magnitude below \<open>2^53\<close>; above,
  a number is a rounded one and the engine prints the shortest digits that give it back,
  then an exponent from \<open>10^21\<close> on. It is used for small ids in the examples only.
\<close>

fun digits :: "nat \<Rightarrow> jsstring" where
  "digits n = (if n < 10 then [of_nat (48 + n)] else digits (n div 10) @ [of_nat (48 + n mod 10)])"

declare digits.simps [simp del]

definition decimal :: "int \<Rightarrow> jsstring" where
  "decimal i = (if i < 0 then lit ''-'' @ digits (nat (- i)) else digits (nat i))"

text \<open>
  \<^verbatim>\<open>CHARACTERS[Math.floor(Math.random() * CHARACTERS.length)]\<close>, for the index
  \<open>r\<close> that the random draw gives.
\<close>

definition pickRandomCharacter :: "nat \<Rightarrow> Character option" where
  "pickRandomCharacter r = at_index CHARACTERS r"

text \<open>\<^verbatim>\<open>e?.message || "Something went wrong"\<close>\<close>

definition error_message :: "exn \<Rightarrow> jsstring" where
  "error_message e =
     (case e of
        Exn None \<Rightarrow> lit ''Something went wrong''
      | Exn (Some m) \<Rightarrow> (if m = [] then lit ''Something went wrong'' else m))"

text \<open>
  The \<open>try\<close> block of \<open>fetchRandomQuote\<close>, for what \<open>fetch\<close> gave (\<open>Inl\<close> when it
  rejected): it ends with a throw or with the state after the three updates.
\<close>

definition fetch_try ::
  "(int \<Rightarrow> jsstring) \<Rightarrow> exn + response \<Rightarrow> nat \<Rightarrow> app_state \<Rightarrow> exn + app_state" where
  "fetch_try num fetched r s =
     (case fetched of
        Inl e \<Rightarrow> Inl e
      | Inr res \<Rightarrow>
          if \<not> ok res then Inl (Exn (Some (lit ''Failed to fetch quote'')))
          else (case body_json res of
                  Inl e \<Rightarrow> Inl e
                | Inr data \<Rightarrow>
                    Inr (s\<lparr>quote := Some \<lparr>qid = String_js num (data_id data),
                                          content = data_quote data,
                                          author = data_author data\<rparr>,
                           character := pickRandomCharacter r,
                           sceneKey := sceneKey s + 1\<rparr>)))"

text \<open>
  \<open>fetchRandomQuote\<close>: the loading flag is set and the old error cleared, the
  \<open>try\<close> block runs, \<open>catch\<close> stores the message, \<open>finally\<close> clears the flag.
\<close>

definition fetchRandomQuote ::
  "(int \<Rightarrow> jsstring) \<Rightarrow> exn + response \<Rightarrow> nat \<Rightarrow> app_state \<Rightarrow> app_state" where
  "fetchRandomQuote num fetched r s =
     (let s1 = s\<lparr>loading := True, error := []\<rparr>;
          s2 = (case fetch_try num fetched r s1 of
                  Inl e \<Rightarrow> s1\<lparr>error := error_message e\<rparr>
                | Inr s' \<Rightarrow> s')
      in s2\<lparr>loading := False\<rparr>)"

section \<open>The JSON text of the liked list\<close>

text \<open>
  \<open>JSON.stringify\<close> and \<open>JSON.parse\<close> are built into the engine; they are
  written here after ECMA-262 (the JSON object) and ECMA-404 (the grammar).
\<close>

subsection \<open>\<open>JSON.stringify\<close> of an array of quotes\<close>

definition dquote :: code_unit where
  "dquote = 0x22"

definition backslash :: code_unit where
  "backslash = 0x5C"

text \<open>\<open>UnicodeEscape\<close>: a backslash, \<open>u\<close> and four lower-case hexadecimal digits.\<close>

definition hex_digit :: "nat \<Rightarrow> code_unit" where
  "hex_digit d = (if d < 10 then of_nat (48 + d) else of_nat (87 + d))"

definition UnicodeEscape :: "code_unit \<Rightarrow> jsstring" where
  "UnicodeEscape c =
     [backslash, 0x75, hex_digit (unat c div 4096), hex_digit (unat c div 256 mod 16),
      hex_digit (unat c div 16 mod 16), hex_digit (unat c mod 16)]"

definition is_leading :: "code_unit \<Rightarrow> bool" where
  "is_leading c \<longleftrightarrow> 0xD800 \<le> c \<and> c \<le> 0xDBFF"

definition is_trailing :: "code_unit \<Rightarrow> bool" where
  "is_trailing c \<longleftrightarrow> 0xDC00 \<le> c \<and> c \<le> 0xDFFF"

text \<open>
  One code point of \<open>QuoteJSONString\<close> that is a single code unit: the two-character
  escapes of backspace, tab, line feed, form feed, carriage return, the quotation mark
  and the backslash; \<open>UnicodeEscape\<close> for the other units below \<open>0x20\<close> and for a
  surrogate that stands alone; the unit itself otherwise.
\<close>

definition escape :: "code_unit \<Rightarrow> jsstring" where
  "escape c =
     (if c = 0x08 then [backslash, 0x62]
      else if c = 0x09 then [backslash, 0x74]
      else if c = 0x0A then [backslash, 0x6E]
      else if c = 0x0C then [backslash, 0x66]
      else if c = 0x0D then [backslash, 0x72]
      else if c = 0x22 then [backslash, 0x22]
      else if c = 0x5C then [backslash, 0x5C]
      else if c < 0x20 \<or> is_leading c \<or> is_trailing c then UnicodeEscape c
      else [c])"

text \<open>
  The code points of the string in turn: a leading surrogate followed by a trailing one
  is one code point and is copied, every other unit is a code point of its own.
\<close>

fun quote_units :: "jsstring \<Rightarrow> jsstring" where
  "quote_units [] = []"
| "quote_units [c] = escape c"
| "quote_units (c # d # cs) =
     (if is_leading c \<and> is_trailing d then c # d # quote_units cs
      else escape c @ quote_units (d # cs))"

definition QuoteJSONString :: "jsstring \<Rightarrow> jsstring" where
  "QuoteJSONString s = dquote # quote_units s @ [dquote]"

text \<open>
  \<open>SerializeJSONObject\<close> of a quote object: its three properties in the order in which
  \<open>toggleLike\<close> creates them, each as the quoted key, a colon and the quoted value,
  with commas between and braces around.
\<close>

definition SerializeJSONObject :: "Quote \<Rightarrow> jsstring" where
  "SerializeJSONObject q =
     lit ''{'' @ QuoteJSONString (lit ''_id'') @ lit '':'' @ QuoteJSONString (qid q)
     @ lit '','' @ QuoteJSONString (lit ''content'') @ lit '':'' @ QuoteJSONString (content q)
     @ lit '','' @ QuoteJSONString (lit ''author'') @ lit '':'' @ QuoteJSONString (author q)
     @ lit ''}''"

fun join_comma :: "jsstring list \<Rightarrow> jsstring" where
  "join_comma [] = []"
| "join_comma [x] = x"
| "join_comma (x # y # ys) = x @ lit '','' @ join_comma (y # ys)"

text \<open>
  \<open>JSON.stringify(likedQuotes)\<close>, which is \<open>SerializeJSONArray\<close>: the elements with
  commas between and brackets around, \<open>[]\<close> for the empty array.
\<close>

definition JSON_stringify :: "Quote list \<Rightarrow> jsstring" where
  "JSON_stringify qs = lit ''['' @ join_comma (map SerializeJSONObject qs) @ lit '']''"

subsection \<open>\<open>JSON.parse\<close>\<close>

text \<open>White space is the space, the tab, the line feed and the carriage return.\<close>

definition is_ws :: "code_unit \<Rightarrow> bool" where
  "is_ws c \<longleftrightarrow> c = 0x20 \<or> c = 0x09 \<or> c = 0x0A \<or> c = 0x0D"

definition skip_ws :: "jsstring \<Rightarrow> jsstring" where
  "skip_ws s = dropWhile is_ws s"

text \<open>A hexadecimal digit of a \<open>u\<close> escape, in either case, and the unit of four.\<close>

definition hex_value :: "code_unit \<Rightarrow> nat option" where
  "hex_value c =
     (if 0x30 \<le> c \<and> c \<le> 0x39 then Some (unat c - 48)
      else if 0x61 \<le> c \<and> c \<le> 0x66 then Some (unat c - 87)
      else if 0x41 \<le> c \<and> c \<le> 0x46 then Some (unat c - 55)
      else None)"

definition hex4 ::
  "code_unit \<Rightarrow> code_unit \<Rightarrow> code_unit \<Rightarrow> code_unit \<Rightarrow> code_unit option" where
  "hex4 h1 h2 h3 h4 =
     (case (hex_value h1, hex_value h2, hex_value h3, hex_value h4) of
        (Some a, Some b, Some c, Some d) \<Rightarrow> Some (of_nat (a * 4096 + b * 256 + c * 16 + d))
      | _ \<Rightarrow> None)"

text \<open>
  The character after a backslash: the quotation mark, the backslash, the solidus and
  the letters \<open>b\<close>, \<open>f\<close>, \<open>n\<close>, \<open>r\<close>, \<open>t\<close>.
\<close>

definition simple_escape :: "code_unit \<Rightarrow> code_unit option" where
  "simple_escape e =
     (if e = 0x22 then Some 0x22
      else if e = 0x5C then Some 0x5C
      else if e = 0x2F then Some 0x2F
      else if e = 0x62 then Some 0x08
      else if e = 0x66 then Some 0x0C
      else if e = 0x6E then Some 0x0A
      else if e = 0x72 then Some 0x0D
      else if e = 0x74 then Some 0x09
      else None)"

definition cons_unit ::
  "code_unit \<Rightarrow> (jsstring \<times> jsstring) option \<Rightarrow> (jsstring \<times> jsstring) option" where
  "cons_unit c r = (case r of None \<Rightarrow> None | Some (s, rest) \<Rightarrow> Some (c # s, rest))"

text \<open>
  The characters of a string after its opening quotation mark, up to the closing one:
  the string's value and the text that follows. A unit below \<open>0x20\<close>, an unknown
  escape and a text that ends inside the string are syntax errors (\<open>None\<close>).
\<close>

fun string_chars :: "jsstring \<Rightarrow> (jsstring \<times> jsstring) option" where
  "string_chars [] = None"
| "string_chars (c # cs) =
     (if c = dquote then Some ([], cs)
      else if c = backslash then
        (case cs of
           [] \<Rightarrow> None
         | e # es \<Rightarrow>
             if e = 0x75 then
               (case es of
                  h1 # h2 # h3 # h4 # rest \<Rightarrow>
                    (case hex4 h1 h2 h3 h4 of
                       None \<Rightarrow> None
                     | Some u \<Rightarrow> cons_unit u (string_chars rest))
                | _ \<Rightarrow> None)
             else (case simple_escape e of
                     None \<Rightarrow> None
                   | Some u \<Rightarrow> cons_unit u (string_chars es)))
      else if c < 0x20 then None
      else cons_unit c (string_chars cs))"

fun strip_prefix :: "'a list \<Rightarrow> 'a list \<Rightarrow> 'a list option" where
  "strip_prefix [] ys = Some ys"
| "strip_prefix (x # xs) [] = None"
| "strip_prefix (x # xs) (y # ys) = (if x = y then strip_prefix xs ys else None)"

text \<open>
  A number: an optional minus sign, \<open>0\<close> or a digit from \<open>1\<close> to \<open>9\<close> with more
  digits, an optional fraction (a point and digits), an optional exponent (\<open>e\<close> or
  \<open>E\<close>, an optional sign, digits). Each part gives its text and what follows.
\<close>

definition is_digit :: "code_unit \<Rightarrow> bool" where
  "is_digit c \<longleftrightarrow> 0x30 \<le> c \<and> c \<le> 0x39"

definition number_int :: "jsstring \<Rightarrow> (jsstring \<times> jsstring) option" where
  "number_int s =
     (case s of
        [] \<Rightarrow> None
      | c # cs \<Rightarrow>
          if c = 0x30 then Some ([c], cs)
          else if is_digit c then Some (c # takeWhile is_digit cs, dropWhile is_digit cs)
          else None)"

definition number_digits :: "jsstring \<Rightarrow> (jsstring \<times> jsstring) option" where
  "number_digits s =
     (if takeWhile is_digit s = [] then None
      else Some (takeWhile is_digit s, dropWhile is_digit s))"

definition number_frac :: "jsstring \<Rightarrow> (jsstring \<times> jsstring) option" where
  "number_frac s =
     (case s of
        [] \<Rightarrow> Some ([], s)
      | c # cs \<Rightarrow>
          if c = 0x2E then
            (case number_digits cs of None \<Rightarrow> None | Some (ds, r) \<Rightarrow> Some (c # ds, r))
          else Some ([], s))"

definition number_exp :: "jsstring \<Rightarrow> (jsstring \<times> jsstring) option" where
  "number_exp s =
     (case s of
        [] \<Rightarrow> Some ([], s)
      | c # cs \<Rightarrow>
          if c = 0x65 \<or> c = 0x45 then
            (case cs of
               [] \<Rightarrow> None
             | g # gs \<Rightarrow>
                 if g = 0x2B \<or> g = 0x2D then
                   (case number_digits gs of
                      None \<Rightarrow> None
                    | Some (ds, r) \<Rightarrow> Some (c # g # ds, r))
                 else
                   (case number_digits cs of
                      None \<Rightarrow> None
                    | Some (ds, r) \<Rightarrow> Some (c # ds, r)))
          else Some ([], s))"

definition number_unsigned :: "jsstring \<Rightarrow> (jsstring \<times> jsstring) option" where
  "number_unsigned s =
     (case number_int s of
        None \<Rightarrow> None
      | Some (i, r1) \<Rightarrow>
          (case number_frac r1 of
             None \<Rightarrow> None
           | Some (f, r2) \<Rightarrow>
               (case number_exp r2 of
                  None \<Rightarrow> None
                | Some (e, r3) \<Rightarrow> Some (i @ f @ e, r3))))"

definition number :: "jsstring \<Rightarrow> (jsstring \<times> jsstring) option" where
  "number s =
     (case s of
        [] \<Rightarrow> None
      | c # cs \<Rightarrow>
          if c = 0x2D then
            (case number_unsigned cs of None \<Rightarrow> None | Some (t, r) \<Rightarrow> Some (c # t, r))
          else number_unsigned s)"

text \<open>
  A member in front of the members that follow it in the text: a key that comes again
  later keeps its first place and takes the later value.
\<close>

definition add_member ::
  "jsstring \<Rightarrow> json \<Rightarrow> (jsstring \<times> json) list \<Rightarrow> (jsstring \<times> json) list" where
  "add_member k v ms =
     (case map_of ms k of
        None \<Rightarrow> (k, v) # ms
      | Some v' \<Rightarrow> (k, v') # filter (\<lambda>m. fst m \<noteq> k) ms)"

text \<open>
  A value at the head of the text, with the text that follows it; the elements of an
  array from its first element to the closing bracket; the members of an object from
  its first key to the closing brace. The first argument bounds the number of nested
  calls: it is the fuel of the recursion, and \<open>parse_json_text\<close> gives enough of it
  for the length of the text.
\<close>

fun parse_value :: "nat \<Rightarrow> jsstring \<Rightarrow> (json \<times> jsstring) option"
  and parse_elements :: "nat \<Rightarrow> jsstring \<Rightarrow> (json list \<times> jsstring) option"
  and parse_members :: "nat \<Rightarrow> jsstring \<Rightarrow> ((jsstring \<times> json) list \<times> jsstring) option"
where
  "parse_value 0 s = None"
| "parse_value (Suc n) s =
     (case s of
        [] \<Rightarrow> None
      | c # cs \<Rightarrow>
          if c = dquote then
            (case string_chars cs of None \<Rightarrow> None | Some (t, r) \<Rightarrow> Some (JStr t, r))
          else if c = 0x5B then
            (case skip_ws cs of
               [] \<Rightarrow> None
             | d # ds \<Rightarrow>
                 if d = 0x5D then Some (JArr [], ds)
                 else (case parse_elements n (d # ds) of
                         None \<Rightarrow> None
                       | Some (vs, r) \<Rightarrow> Some (JArr vs, r)))
          else if c = 0x7B then
            (case skip_ws cs of
               [] \<Rightarrow> None
             | d # ds \<Rightarrow>
                 if d = 0x7D then Some (JObj [], ds)
                 else (case parse_members n (d # ds) of
                         None \<Rightarrow> None
                       | Some (ms, r) \<Rightarrow> Some (JObj ms, r)))
          else if c = 0x74 then
            (case strip_prefix (lit ''true'') s of None \<Rightarrow> None | Some r \<Rightarrow> Some (JBool True, r))
          else if c = 0x66 then
            (case strip_prefix (lit ''false'') s of
               None \<Rightarrow> None
             | Some r \<Rightarrow> Some (JBool False, r))
          else if c = 0x6E then
            (case strip_prefix (lit ''null'') s of None \<Rightarrow> None | Some r \<Rightarrow> Some (JNull, r))
          else (case number s of None \<Rightarrow> None | Some (t, r) \<Rightarrow> Some (JNum t, r)))"
| "parse_elements 0 s = None"
| "parse_elements (Suc n) s =
     (case parse_value n s of
        None \<Rightarrow> None
      | Some (v, r) \<Rightarrow>
          (case skip_ws r of
             [] \<Rightarrow> None
           | c # cs \<Rightarrow>
               if c = 0x2C then
                 (case parse_elements n (skip_ws cs) of
                    None \<Rightarrow> None
                  | Some (vs, r') \<Rightarrow> Some (v # vs, r'))
               else if c = 0x5D then Some ([v], cs)
               else None))"
| "parse_members 0 s = None"
| "parse_members (Suc n) s =
     (case s of
        [] \<Rightarrow> None
      | q # qs \<Rightarrow>
          if q \<noteq> dquote then None
          else
            (case string_chars qs of
               None \<Rightarrow> None
             | Some (k, r) \<Rightarrow>
                 (case skip_ws r of
                    [] \<Rightarrow> None
                  | c # cs \<Rightarrow>
                      if c \<noteq> 0x3A then None
                      else
                        (case parse_value n (skip_ws cs) of
                           None \<Rightarrow> None
                         | Some (v, r') \<Rightarrow>
                             (case skip_ws r' of
                                [] \<Rightarrow> None
                              | d # ds \<Rightarrow>
                                  if d = 0x2C then
                                    (case parse_members n (skip_ws ds) of
                                       None \<Rightarrow> None
                                     | Some (ms, r'') \<Rightarrow> Some (add_member k v ms, r''))
                                  else if d = 0x7D then Some ([(k, v)], ds)
                                  else None)))))"

declare parse_value.simps [simp del] parse_elements.simps [simp del]
  parse_members.simps [simp del]

text \<open>
  The value of a JSON text: one value with white space around it and nothing else;
  \<open>None\<close> is the \<open>SyntaxError\<close>.
\<close>

definition parse_json_text :: "jsstring \<Rightarrow> json option" where
  "parse_json_text s =
     (case parse_value (Suc (2 * length s)) (skip_ws s) of
        None \<Rightarrow> None
      | Some (v, r) \<Rightarrow> if skip_ws r = [] then Some v else None)"

text \<open>\<open>JSON.parse(raw)\<close>, for the error value \<open>err\<close> that the engine throws.\<close>

definition JSON_parse :: "exn \<Rightarrow> jsstring \<Rightarrow> exn + json" where
  "JSON_parse err s = (case parse_json_text s of None \<Rightarrow> Inl err | Some v \<Rightarrow> Inr v)"

subsection \<open>Quotes as JSON values\<close>

text \<open>The array of quote objects that a liked list is, as a JSON value.\<close>

definition json_of_quote :: "Quote \<Rightarrow> json" where
  "json_of_quote q =
     JObj [(lit ''_id'', JStr (qid q)), (lit ''content'', JStr (content q)),
           (lit ''author'', JStr (author q))]"

definition json_of_quotes :: "Quote list \<Rightarrow> json" where
  "json_of_quotes qs = JArr (map json_of_quote qs)"

text \<open>
  The other way round, what the application reads of a parsed value: the elements of
  the array in their order, each through its properties \<open>_id\<close>, \<open>content\<close> and
  \<open>author\<close>. \<open>None\<close> where the value is not an array of objects with these three
  string properties.
\<close>

fun quote_of_json :: "json \<Rightarrow> Quote option" where
  "quote_of_json (JObj ms) =
     (case (map_of ms (lit ''_id''), map_of ms (lit ''content''), map_of ms (lit ''author'')) of
        (Some (JStr i), Some (JStr c), Some (JStr a)) \<Rightarrow>
          Some \<lparr>qid = i, content = c, author = a\<rparr>
      | _ \<Rightarrow> None)"
| "quote_of_json _ = None"

fun quotes_of_json :: "json \<Rightarrow> Quote list option" where
  "quotes_of_json (JArr vs) = those (map quote_of_json vs)"
| "quotes_of_json _ = None"

section \<open>Properties of the liked list\<close>

lemma likedIds_Cons: "likedIds (q # qs) = insert (qid q) (likedIds qs)"
  by (simp add: likedIds_def)

lemma likedIds_filter: "i \<notin> likedIds (filter (\<lambda>q. qid q \<noteq> i) xs)"
  by (auto simp: likedIds_def)

lemma likedIds_remove: "likedIds (filter (\<lambda>q. qid q \<noteq> i) xs) = likedIds xs - {i}"
  by (auto simp: likedIds_def)

lemma filter_absent: "i \<notin> likedIds xs \<Longrightarrow> filter (\<lambda>q. qid q \<noteq> i) xs = xs"
  by (induction xs) (auto simp: likedIds_def)

lemma exists_iff_liked: "list_ex (\<lambda>p. qid p = i) xs \<longleftrightarrow> i \<in> likedIds xs"
  by (auto simp: likedIds_def list_ex_iff)

lemma filter_middle:
  "no_duplicate_ids (xs @ q # ys) \<Longrightarrow> filter (\<lambda>p. qid p \<noteq> qid q) (xs @ q # ys) = xs @ ys"
proof -
  assume d: "no_duplicate_ids (xs @ q # ys)"
  have "qid q \<notin> likedIds xs" and "qid q \<notin> likedIds ys"
    using d by (auto simp: no_duplicate_ids_def likedIds_def)
  then show ?thesis by (simp add: filter_absent)
qed

text \<open>
  C1. When the current quote is not in the liked list, the first \<open>toggleLike\<close> is a
  like (the quote's copy is put in front) and the second one, for the same current
  quote, is the unlike that takes it out again: the liked list, and with it the whole
  state, is what it was before the pair, same entries in the same order. The liked
  list is restored as well when the second \<open>toggleLike\<close> runs on another current
  quote with the same \<open>_id\<close>.
\<close>

theorem toggleLike_like_then_unlike:
  assumes "quote s = Some q" and "qid q \<notin> likedIds (likedQuotes s)"
  shows "likedQuotes (toggleLike s) =
           \<lparr>qid = qid q, content = content q, author = author q\<rparr> # likedQuotes s
         \<and> likedQuotes (toggleLike (toggleLike s)) = likedQuotes s
         \<and> toggleLike (toggleLike s) = s
         \<and> (\<forall>q'. qid q' = qid q \<longrightarrow>
              likedQuotes (toggleLike ((toggleLike s)\<lparr>quote := Some q'\<rparr>)) = likedQuotes s)"
  using assms by (simp add: toggleLike_def exists_iff_liked filter_absent likedIds_Cons)

theorem toggleLike_like_then_unlike_witness:
  "likedQuotes (toggleLike (toggleLike
      ((initial_state (lit ''dark'') [quote_2])\<lparr>quote := Some quote_1\<rparr>))) = [quote_2]"
  using toggleLike_like_then_unlike
    [of "(initial_state (lit ''dark'') [quote_2])\<lparr>quote := Some quote_1\<rparr>" quote_1]
  by (simp add: initial_state_def likedIds_def quote_1_def quote_2_def lit_def)

text \<open>
  When the current quote is already liked, the pair is an unlike followed by a like:
  the entry comes back in front, as a copy of the current quote.
\<close>

lemma toggleLike_unlike_then_like:
  assumes "quote s = Some q" and "qid q \<in> likedIds (likedQuotes s)"
  shows "likedQuotes (toggleLike (toggleLike s)) =
           \<lparr>qid = qid q, content = content q, author = author q\<rparr>
             # filter (\<lambda>p. qid p \<noteq> qid q) (likedQuotes s)"
  using assms by (simp add: toggleLike_def exists_iff_liked likedIds_filter)

text \<open>
  C3. \<open>toggleLike\<close> does nothing while there is no current quote. With a current
  quote whose \<open>_id\<close> is in the liked list it removes the entries with that \<open>_id\<close>
  (in a list without duplicates: the one entry, the others keeping their order);
  otherwise it puts a copy of the quote's \<open>{_id, content, author}\<close> in front. From
  an empty list, liking \<open>{"1","A","X"}\<close>, then \<open>{"2","B","Y"}\<close>, then unliking
  \<open>"1"\<close> gives \<open>[{"1","A","X"}]\<close>, \<open>[{"2","B","Y"}, {"1","A","X"}]\<close> and
  \<open>[{"2","B","Y"}]\<close>.
\<close>

theorem toggleLike_rule:
  "(quote s = None \<longrightarrow> toggleLike s = s)
   \<and> (\<forall>q. quote s = Some q \<and> qid q \<in> likedIds (likedQuotes s) \<longrightarrow>
          toggleLike s = s\<lparr>likedQuotes := filter (\<lambda>p. qid p \<noteq> qid q) (likedQuotes s)\<rparr>)
   \<and> (\<forall>q xs p ys. quote s = Some q \<and> likedQuotes s = xs @ p # ys \<and> qid p = qid q
          \<and> no_duplicate_ids (likedQuotes s) \<longrightarrow> toggleLike s = s\<lparr>likedQuotes := xs @ ys\<rparr>)
   \<and> (\<forall>q. quote s = Some q \<and> qid q \<notin> likedIds (likedQuotes s) \<longrightarrow>
          toggleLike s =
            s\<lparr>likedQuotes :=
                \<lparr>qid = qid q, content = content q, author = author q\<rparr> # likedQuotes s\<rparr>)
   \<and> (likedQuotes s = [] \<longrightarrow>
        (let s1 = toggleLike (s\<lparr>quote := Some quote_1\<rparr>);
             s2 = toggleLike (s1\<lparr>quote := Some quote_2\<rparr>);
             s3 = toggleLike (s2\<lparr>quote := Some quote_1\<rparr>)
         in likedQuotes s1 = [quote_1] \<and> likedQuotes s2 = [quote_2, quote_1]
            \<and> likedQuotes s3 = [quote_2]))"
proof (intro conjI allI impI)
  show "toggleLike s = s" if "quote s = None"
    using that by (simp add: toggleLike_def)
next
  fix q
  assume "quote s = Some q \<and> qid q \<in> likedIds (likedQuotes s)"
  then show "toggleLike s = s\<lparr>likedQuotes := filter (\<lambda>p. qid p \<noteq> qid q) (likedQuotes s)\<rparr>"
    by (simp add: toggleLike_def exists_iff_liked)
next
  fix q xs p ys
  assume h: "quote s = Some q \<and> likedQuotes s = xs @ p # ys \<and> qid p = qid q
          \<and> no_duplicate_ids (likedQuotes s)"
  then have eq: "likedQuotes s = xs @ p # ys" and pq: "qid p = qid q"
    and nd: "no_duplicate_ids (likedQuotes s)" and cur: "quote s = Some q"
    by blast+
  have liked: "qid q \<in> likedIds (likedQuotes s)"
    using eq pq by (auto simp: likedIds_def)
  from nd have "no_duplicate_ids (xs @ p # ys)" unfolding eq .
  from filter_middle [OF this]
  have "filter (\<lambda>x. qid x \<noteq> qid q) (likedQuotes s) = xs @ ys" unfolding eq pq .
  then show "toggleLike s = s\<lparr>likedQuotes := xs @ ys\<rparr>"
    using cur liked by (simp add: toggleLike_def exists_iff_liked)
next
  fix q
  assume "quote s = Some q \<and> qid q \<notin> likedIds (likedQuotes s)"
  then show "toggleLike s =
            s\<lparr>likedQuotes :=
                \<lparr>qid = qid q, content = content q, author = author q\<rparr> # likedQuotes s\<rparr>"
    by (simp add: toggleLike_def exists_iff_liked)
next
  assume "likedQuotes s = []"
  then show "let s1 = toggleLike (s\<lparr>quote := Some quote_1\<rparr>);
                 s2 = toggleLike (s1\<lparr>quote := Some quote_2\<rparr>);
                 s3 = toggleLike (s2\<lparr>quote := Some quote_1\<rparr>)
             in likedQuotes s1 = [quote_1] \<and> likedQuotes s2 = [quote_2, quote_1]
                \<and> likedQuotes s3 = [quote_2]"
    by (simp add: toggleLike_def quote_1_def quote_2_def lit_def)
qed

theorem toggleLike_rule_witness:
  "toggleLike (initial_state (lit ''dark'') [quote_2, quote_1])
     = initial_state (lit ''dark'') [quote_2, quote_1]
   \<and> toggleLike ((initial_state (lit ''dark'') [quote_2, quote_1])\<lparr>quote := Some quote_1\<rparr>)
     = (initial_state (lit ''dark'') [quote_2])\<lparr>quote := Some quote_1\<rparr>
   \<and> toggleLike ((initial_state (lit ''dark'') [quote_1])\<lparr>quote := Some quote_2\<rparr>)
     = (initial_state (lit ''dark'') [quote_2, quote_1])\<lparr>quote := Some quote_2\<rparr>
   \<and> likedQuotes (toggleLike ((toggleLike ((toggleLike
        ((initial_state (lit ''dark'') [])\<lparr>quote := Some quote_1\<rparr>))\<lparr>quote := Some quote_2\<rparr>))
          \<lparr>quote := Some quote_1\<rparr>)) = [quote_2]"
proof -
  have ids: "likedIds [quote_2, quote_1] = {lit ''2'', lit ''1''}" "likedIds [quote_1] = {lit ''1''}"
    by (simp_all add: likedIds_def quote_1_def quote_2_def)
  have ne: "lit ''1'' \<noteq> lit ''2''" by (simp add: lit_def)
  have a: "toggleLike (initial_state (lit ''dark'') [quote_2, quote_1])
             = initial_state (lit ''dark'') [quote_2, quote_1]"
    using toggleLike_rule [of "initial_state (lit ''dark'') [quote_2, quote_1]"]
    by (simp add: initial_state_def)
  have b: "toggleLike ((initial_state (lit ''dark'') [quote_2, quote_1])\<lparr>quote := Some quote_1\<rparr>)
             = (initial_state (lit ''dark'') [quote_2])\<lparr>quote := Some quote_1\<rparr>"
    using toggleLike_rule
      [of "(initial_state (lit ''dark'') [quote_2, quote_1])\<lparr>quote := Some quote_1\<rparr>"] ids ne
    by (simp add: initial_state_def quote_1_def quote_2_def)
  have c: "toggleLike ((initial_state (lit ''dark'') [quote_1])\<lparr>quote := Some quote_2\<rparr>)
             = (initial_state (lit ''dark'') [quote_2, quote_1])\<lparr>quote := Some quote_2\<rparr>"
    using toggleLike_rule
      [of "(initial_state (lit ''dark'') [quote_1])\<lparr>quote := Some quote_2\<rparr>"] ids ne
    by (simp add: initial_state_def quote_1_def quote_2_def)
  have d: "likedQuotes (toggleLike ((toggleLike ((toggleLike
        ((initial_state (lit ''dark'') [])\<lparr>quote := Some quote_1\<rparr>))\<lparr>quote := Some quote_2\<rparr>))
          \<lparr>quote := Some quote_1\<rparr>)) = [quote_2]"
    using toggleLike_rule [of "initial_state (lit ''dark'') []"]
    by (simp add: initial_state_def Let_def)
  from a b c d show ?thesis by blast
qed

text \<open>
  C4. With a current quote, a \<open>toggleLike\<close> that adds its \<open>_id\<close> (it was not in the
  list) leaves the \<open>_id\<close> in the set of liked ids, and one that removes it (it was in
  the list) leaves it out of the set; \<open>isCurrentLiked\<close> reads the set accordingly.
\<close>

theorem isLiked_after_toggleLike:
  assumes "quote s = Some q"
  shows "(qid q \<notin> likedIds (likedQuotes s) \<longrightarrow>
            qid q \<in> likedIds (likedQuotes (toggleLike s)) \<and> isCurrentLiked (toggleLike s))
       \<and> (qid q \<in> likedIds (likedQuotes s) \<longrightarrow>
            qid q \<notin> likedIds (likedQuotes (toggleLike s)) \<and> \<not> isCurrentLiked (toggleLike s))"
  using assms
  by (simp add: toggleLike_def isCurrentLiked_def exists_iff_liked likedIds_Cons likedIds_filter)

theorem isLiked_after_toggleLike_witness:
  "isCurrentLiked (toggleLike ((initial_state (lit ''dark'') [quote_1])\<lparr>quote := Some quote_2\<rparr>))
   \<and> \<not> isCurrentLiked
        (toggleLike ((initial_state (lit ''dark'') [quote_2, quote_1])\<lparr>quote := Some quote_2\<rparr>))"
proof -
  have ne: "lit ''2'' \<noteq> lit ''1''" by (simp add: lit_def)
  have a: "isCurrentLiked
             (toggleLike ((initial_state (lit ''dark'') [quote_1])\<lparr>quote := Some quote_2\<rparr>))"
    using isLiked_after_toggleLike
      [of "(initial_state (lit ''dark'') [quote_1])\<lparr>quote := Some quote_2\<rparr>" quote_2] ne
    by (simp add: initial_state_def likedIds_def quote_1_def quote_2_def)
  have b: "\<not> isCurrentLiked
        (toggleLike ((initial_state (lit ''dark'') [quote_2, quote_1])\<lparr>quote := Some quote_2\<rparr>))"
    using isLiked_after_toggleLike
      [of "(initial_state (lit ''dark'') [quote_2, quote_1])\<lparr>quote := Some quote_2\<rparr>" quote_2]
    by (simp add: initial_state_def likedIds_def quote_1_def quote_2_def)
  from a b show ?thesis by blast
qed

text \<open>
  C7. \<open>removeLiked i\<close> leaves the state as it is when no entry has the \<open>_id\<close>
  \<open>i\<close>. When an entry has it, that entry is removed and the others keep their
  order (in a list without duplicates it is the only one). In every case the liked ids
  afterwards are the ones before without \<open>i\<close>.
\<close>

theorem removeLiked_rule:
  "(i \<notin> likedIds (likedQuotes s) \<longrightarrow> removeLiked i s = s)
   \<and> (\<forall>xs q ys. likedQuotes s = xs @ q # ys \<and> qid q = i \<and> no_duplicate_ids (likedQuotes s)
          \<longrightarrow> removeLiked i s = s\<lparr>likedQuotes := xs @ ys\<rparr>)
   \<and> likedIds (likedQuotes (removeLiked i s)) = likedIds (likedQuotes s) - {i}"
  using filter_middle by (auto simp: removeLiked_def filter_absent likedIds_remove)

theorem removeLiked_rule_witness:
  "removeLiked (lit ''3'') (initial_state (lit ''dark'') [quote_2, quote_1])
     = initial_state (lit ''dark'') [quote_2, quote_1]
   \<and> removeLiked (lit ''1'') (initial_state (lit ''dark'') [quote_2, quote_1])
     = initial_state (lit ''dark'') [quote_2]"
proof -
  have ne: "lit ''3'' \<noteq> lit ''1''" "lit ''3'' \<noteq> lit ''2''" "lit ''2'' \<noteq> lit ''1''"
    by (simp_all add: lit_def)
  have a: "removeLiked (lit ''3'') (initial_state (lit ''dark'') [quote_2, quote_1])
     = initial_state (lit ''dark'') [quote_2, quote_1]"
    using removeLiked_rule [of "lit ''3''" "initial_state (lit ''dark'') [quote_2, quote_1]"] ne
    by (simp add: initial_state_def likedIds_def quote_1_def quote_2_def)
  have b: "removeLiked (lit ''1'') (initial_state (lit ''dark'') [quote_2, quote_1])
     = initial_state (lit ''dark'') [quote_2]"
    using removeLiked_rule [of "lit ''1''" "initial_state (lit ''dark'') [quote_2, quote_1]",
        THEN conjunct2, THEN conjunct1, rule_format, of "[quote_2]" quote_1 "[]"] ne
    by (simp add: initial_state_def no_duplicate_ids_def quote_1_def quote_2_def)
  from a b show ?thesis by blast
qed

text \<open>
  C8. A liked list without two entries of the same \<open>_id\<close> is still one after
  \<open>toggleLike\<close>, after \<open>removeLiked\<close> and after \<open>clearLiked\<close>.
\<close>

theorem no_duplicate_ids_preserved:
  assumes "no_duplicate_ids (likedQuotes s)"
  shows "no_duplicate_ids (likedQuotes (toggleLike s))
       \<and> no_duplicate_ids (likedQuotes (removeLiked i s))
       \<and> no_duplicate_ids (likedQuotes (clearLiked s))"
  using assms
  by (auto simp: no_duplicate_ids_def toggleLike_def removeLiked_def clearLiked_def
      exists_iff_liked likedIds_def distinct_map_filter Let_def split: option.splits)

theorem no_duplicate_ids_preserved_witness:
  "no_duplicate_ids (likedQuotes
      (toggleLike ((initial_state (lit ''dark'') [quote_1])\<lparr>quote := Some quote_2\<rparr>)))
   \<and> no_duplicate_ids (likedQuotes
      (removeLiked (lit ''1'') ((initial_state (lit ''dark'') [quote_1])\<lparr>quote := Some quote_2\<rparr>)))
   \<and> no_duplicate_ids (likedQuotes
      (clearLiked ((initial_state (lit ''dark'') [quote_1])\<lparr>quote := Some quote_2\<rparr>)))"
  using no_duplicate_ids_preserved
    [of "(initial_state (lit ''dark'') [quote_1])\<lparr>quote := Some quote_2\<rparr>" "lit ''1''"]
  by (simp add: initial_state_def no_duplicate_ids_def)

section \<open>Properties of the theme\<close>

text \<open>
  C9. The theme starts as \<open>dark\<close> when reading the storage throws and when the
  storage holds nothing under the theme's key; the theme button turns \<open>dark\<close> into
  \<open>light\<close> and \<open>light\<close> into \<open>dark\<close>, and changes nothing else of the state.
\<close>

theorem theme_default_and_toggle:
  "(\<forall>e. read_fails st = Some e \<longrightarrow> theme_init st = Inr (lit ''dark''))
   \<and> (read_fails st = None \<and> items st THEME_KEY = None \<longrightarrow> theme_init st = Inr (lit ''dark''))
   \<and> (theme s = lit ''dark'' \<longrightarrow> toggleTheme s = s\<lparr>theme := lit ''light''\<rparr>)
   \<and> (theme s = lit ''light'' \<longrightarrow> toggleTheme s = s\<lparr>theme := lit ''dark''\<rparr>)"
  by (auto simp: theme_init_def try_catch_def getItem_def toggleTheme_def lit_def)

theorem theme_default_and_toggle_witness:
  "theme_init \<lparr>read_fails = Some (Exn None), write_fails = None, items = Map.empty\<rparr>
     = Inr (lit ''dark'')
   \<and> theme_init \<lparr>read_fails = None, write_fails = None, items = Map.empty\<rparr> = Inr (lit ''dark'')
   \<and> toggleTheme (initial_state (lit ''dark'') []) = initial_state (lit ''light'') []
   \<and> toggleTheme (initial_state (lit ''light'') []) = initial_state (lit ''dark'') []"
proof -
  have a: "theme_init \<lparr>read_fails = Some (Exn None), write_fails = None, items = Map.empty\<rparr>
     = Inr (lit ''dark'')"
    using theme_default_and_toggle
      [of "\<lparr>read_fails = Some (Exn None), write_fails = None, items = Map.empty\<rparr>"]
    by simp
  have b: "theme_init \<lparr>read_fails = None, write_fails = None, items = Map.empty\<rparr>
     = Inr (lit ''dark'')"
    using theme_default_and_toggle
      [of "\<lparr>read_fails = None, write_fails = None, items = Map.empty\<rparr>"]
    by simp
  have c: "toggleTheme (initial_state (lit ''dark'') []) = initial_state (lit ''light'') []"
    using theme_default_and_toggle [of _ "initial_state (lit ''dark'') []"]
    by (simp add: initial_state_def)
  have d: "toggleTheme (initial_state (lit ''light'') []) = initial_state (lit ''dark'') []"
    using theme_default_and_toggle [of _ "initial_state (lit ''light'') []"]
    by (simp add: initial_state_def)
  from a b c d show ?thesis by blast
qed

section \<open>Properties of fetching\<close>

lemma error_message_nonempty: "error_message e \<noteq> []"
  by (simp add: error_message_def lit_def split: exn.splits option.splits)

lemma error_message_failed:
  "error_message (Exn (Some (lit ''Failed to fetch quote''))) = lit ''Failed to fetch quote''"
  by (simp add: error_message_def lit_def)

text \<open>
  C2. When \<open>fetch\<close> resolves with an \<open>ok\<close> response whose body parses to \<open>d\<close>, the
  current quote becomes the quote whose \<open>_id\<close> is \<open>String(d.id)\<close>, whose \<open>content\<close>
  is \<open>d.quote\<close> and whose \<open>author\<close> is \<open>d.author\<close>; a string id is taken as it is
  and a number id is printed by \<open>Number::toString\<close>.
\<close>

theorem fetchRandomQuote_success:
  assumes "fetched = Inr res" and "ok res" and "body_json res = Inr d"
  shows "quote (fetchRandomQuote num fetched r s) =
           Some \<lparr>qid = String_js num (data_id d), content = data_quote d,
                 author = data_author d\<rparr>
         \<and> (\<forall>x. data_id d = IdStr x \<longrightarrow>
              map_option qid (quote (fetchRandomQuote num fetched r s)) = Some x)
         \<and> (\<forall>n. data_id d = IdNum n \<longrightarrow>
              map_option qid (quote (fetchRandomQuote num fetched r s)) = Some (num n))"
  using assms by (simp add: fetchRandomQuote_def fetch_try_def)

theorem fetchRandomQuote_success_witness:
  "quote (fetchRandomQuote decimal
      (Inr \<lparr>ok = True,
            body_json = Inr \<lparr>data_id = IdNum 42, data_quote = lit ''A'', data_author = lit ''X''\<rparr>\<rparr>)
      3 (initial_state (lit ''dark'') []))
   = Some \<lparr>qid = lit ''42'', content = lit ''A'', author = lit ''X''\<rparr>"
proof -
  have "decimal 42 = lit ''42''"
    by (simp add: decimal_def lit_def digits.simps [of 42] digits.simps [of 4])
  then show ?thesis
    using fetchRandomQuote_success
      [of "Inr \<lparr>ok = True,
            body_json = Inr \<lparr>data_id = IdNum 42, data_quote = lit ''A'', data_author = lit ''X''\<rparr>\<rparr>"
          "\<lparr>ok = True,
            body_json = Inr \<lparr>data_id = IdNum 42, data_quote = lit ''A'', data_author = lit ''X''\<rparr>\<rparr>"
          "\<lparr>data_id = IdNum 42, data_quote = lit ''A'', data_author = lit ''X''\<rparr>"
          decimal 3 "initial_state (lit ''dark'') []"]
    by simp
qed

text \<open>
  C10. When \<open>fetch\<close> rejects, or resolves with a response that is not \<open>ok\<close>,
  \<open>fetchRandomQuote\<close> changes nothing of the state but the error message and the
  loading flag: the message is \<open>e?.message || "Something went wrong"\<close> or
  \<open>"Failed to fetch quote"\<close>, never empty, the flag is cleared, and the current
  quote and the liked list are the ones before.
\<close>

theorem fetchRandomQuote_failure:
  "(\<forall>e. fetched = Inl e \<longrightarrow>
       fetchRandomQuote num fetched r s = s\<lparr>loading := False, error := error_message e\<rparr>)
   \<and> (\<forall>res. fetched = Inr res \<and> \<not> ok res \<longrightarrow>
       fetchRandomQuote num fetched r s
         = s\<lparr>loading := False, error := lit ''Failed to fetch quote''\<rparr>)
   \<and> ((\<exists>e. fetched = Inl e) \<or> (\<exists>res. fetched = Inr res \<and> \<not> ok res) \<longrightarrow>
        quote (fetchRandomQuote num fetched r s) = quote s
        \<and> likedQuotes (fetchRandomQuote num fetched r s) = likedQuotes s
        \<and> error (fetchRandomQuote num fetched r s) \<noteq> []
        \<and> \<not> loading (fetchRandomQuote num fetched r s))"
  using error_message_nonempty [of "Exn (Some (lit ''Failed to fetch quote''))"]
    error_message_nonempty
  by (auto simp: fetchRandomQuote_def fetch_try_def error_message_failed)

theorem fetchRandomQuote_failure_witness:
  "fetchRandomQuote decimal (Inl (Exn None)) 3
      ((initial_state (lit ''dark'') [quote_2])\<lparr>quote := Some quote_1\<rparr>)
     = (initial_state (lit ''dark'') [quote_2])
         \<lparr>quote := Some quote_1, error := lit ''Something went wrong''\<rparr>
   \<and> fetchRandomQuote decimal (Inr \<lparr>ok = False, body_json = Inl (Exn None)\<rparr>) 3
      ((initial_state (lit ''dark'') [quote_2])\<lparr>quote := Some quote_1\<rparr>)
     = (initial_state (lit ''dark'') [quote_2])
         \<lparr>quote := Some quote_1, error := lit ''Failed to fetch quote''\<rparr>"
proof -
  have a: "fetchRandomQuote decimal (Inl (Exn None)) 3
      ((initial_state (lit ''dark'') [quote_2])\<lparr>quote := Some quote_1\<rparr>)
     = (initial_state (lit ''dark'') [quote_2])
         \<lparr>quote := Some quote_1, error := lit ''Something went wrong''\<rparr>"
    using fetchRandomQuote_failure [of "Inl (Exn None)" decimal 3
        "(initial_state (lit ''dark'') [quote_2])\<lparr>quote := Some quote_1\<rparr>"]
    by (simp add: initial_state_def error_message_def)
  have b: "fetchRandomQuote decimal (Inr \<lparr>ok = False, body_json = Inl (Exn None)\<rparr>) 3
      ((initial_state (lit ''dark'') [quote_2])\<lparr>quote := Some quote_1\<rparr>)
     = (initial_state (lit ''dark'') [quote_2])
         \<lparr>quote := Some quote_1, error := lit ''Failed to fetch quote''\<rparr>"
    using fetchRandomQuote_failure [of "Inr \<lparr>ok = False, body_json = Inl (Exn None)\<rparr>" decimal 3
        "(initial_state (lit ''dark'') [quote_2])\<lparr>quote := Some quote_1\<rparr>"]
    by (simp add: initial_state_def)
  from a b show ?thesis by blast
qed

section \<open>Properties of the JSON text\<close>

subsection \<open>A quoted string parses to the string\<close>

lemma hex_value_hex_digit: "d < 16 \<Longrightarrow> hex_value (hex_digit d) = Some d"
proof -
  assume "d < 16"
  then consider "d = 0" | "d = 1" | "d = 2" | "d = 3" | "d = 4" | "d = 5" | "d = 6" | "d = 7"
    | "d = 8" | "d = 9" | "d = 10" | "d = 11" | "d = 12" | "d = 13" | "d = 14" | "d = 15"
    by (auto simp: less_Suc_eq numeral_eq_Suc)
  then show ?thesis
    by cases (simp_all add: hex_value_def hex_digit_def)
qed

lemma nibbles:
  "n div 4096 * 4096 + n div 256 mod 16 * 256 + n div 16 mod 16 * 16 + n mod 16 = (n::nat)"
proof -
  have a: "n = n div 16 * 16 + n mod 16" by simp
  have "n div 16 = n div 16 div 16 * 16 + n div 16 mod 16" by simp
  moreover have "n div 16 div 16 = n div 256" using div_mult2_eq [of n 16 16] by simp
  ultimately have b: "n div 16 = n div 256 * 16 + n div 16 mod 16" by simp
  have "n div 256 = n div 256 div 16 * 16 + n div 256 mod 16" by simp
  moreover have "n div 256 div 16 = n div 4096" using div_mult2_eq [of n 256 16] by simp
  ultimately have c: "n div 256 = n div 4096 * 16 + n div 256 mod 16" by simp
  from a b c show ?thesis by linarith
qed

lemma unit_of_nibbles:
  "of_nat (unat c div 4096 * 4096 + unat c div 256 mod 16 * 256 + unat c div 16 mod 16 * 16
     + unat c mod 16) = (c :: code_unit)"
proof -
  show ?thesis by (simp only: nibbles) simp
qed

lemma hex4_UnicodeEscape:
  "hex4 (hex_digit (unat c div 4096)) (hex_digit (unat c div 256 mod 16))
     (hex_digit (unat c div 16 mod 16)) (hex_digit (unat c mod 16)) = Some c"
proof -
  have lt: "unat c < 65536" using unsigned_less [of c, where ?'a = nat] by simp
  then have "unat c div 4096 < 16" by simp
  then show ?thesis
    unfolding hex4_def
    by (simp add: hex_value_hex_digit unit_of_nibbles del: of_nat_add of_nat_mult)
qed

lemma string_chars_UnicodeEscape:
  "string_chars (UnicodeEscape c @ t) = cons_unit c (string_chars t)"
  by (simp add: UnicodeEscape_def dquote_def backslash_def hex4_UnicodeEscape)

lemma string_chars_raw:
  "\<not> c < 0x20 \<Longrightarrow> c \<noteq> 0x22 \<Longrightarrow> c \<noteq> 0x5C \<Longrightarrow>
   string_chars (c # t) = cons_unit c (string_chars t)"
  by (simp add: dquote_def backslash_def)

lemma string_chars_escape:
  "string_chars (escape c @ t) = cons_unit c (string_chars t)"
  by (simp add: escape_def string_chars_UnicodeEscape string_chars_raw)
     (simp add: dquote_def backslash_def simple_escape_def)

lemma leading_raw: "is_leading c \<Longrightarrow> \<not> c < 0x20 \<and> c \<noteq> 0x22 \<and> c \<noteq> 0x5C"
  by (auto simp: is_leading_def word_le_nat_alt word_less_nat_alt)

lemma trailing_raw: "is_trailing c \<Longrightarrow> \<not> c < 0x20 \<and> c \<noteq> 0x22 \<and> c \<noteq> 0x5C"
  by (auto simp: is_trailing_def word_le_nat_alt word_less_nat_alt)

lemma string_chars_quote_units:
  "string_chars (quote_units s @ dquote # rest) = Some (s, rest)"
proof (induction s rule: quote_units.induct)
  case 1
  show ?case by simp
next
  case (2 c)
  show ?case by (simp add: string_chars_escape cons_unit_def)
next
  case (3 c d cs)
  show ?case
  proof (cases "is_leading c \<and> is_trailing d")
    case True
    then show ?thesis
      using 3 leading_raw [of c] trailing_raw [of d]
      by (simp add: string_chars_raw cons_unit_def del: string_chars.simps)
  next
    case False
    then have "quote_units (c # d # cs) = escape c @ quote_units (d # cs)"
      by auto
    then show ?thesis
      using 3(2) [OF False] by (simp add: string_chars_escape cons_unit_def)
  qed
qed

subsection \<open>The text of a liked list parses to the list\<close>

lemma punct:
  "lit ''['' = [0x5B]" "lit '']'' = [0x5D]" "lit ''{'' = [0x7B]" "lit ''}'' = [0x7D]"
  "lit '':'' = [0x3A]" "lit '','' = [0x2C]"
  by (simp_all add: lit_def)

lemma skip_ws_Cons: "\<not> is_ws c \<Longrightarrow> skip_ws (c # cs) = c # cs"
  by (simp add: skip_ws_def)

lemma not_ws:
  "\<not> is_ws dquote" "\<not> is_ws 0x5B" "\<not> is_ws 0x5D" "\<not> is_ws 0x7B" "\<not> is_ws 0x7D"
  "\<not> is_ws 0x3A" "\<not> is_ws 0x2C"
  by (simp_all add: is_ws_def dquote_def)

lemma parse_value_string:
  "parse_value (Suc n) (QuoteJSONString s @ rest) = Some (JStr s, rest)"
  by (simp add: parse_value.simps QuoteJSONString_def string_chars_quote_units)

lemma parse_members_step:
  "parse_members (Suc (Suc n))
     (QuoteJSONString k @ 0x3A # QuoteJSONString v @ 0x2C # dquote # t)
   = (case parse_members (Suc n) (dquote # t) of
        None \<Rightarrow> None
      | Some (ms, r) \<Rightarrow> Some (add_member k (JStr v) ms, r))"
proof -
  have val: "parse_value (Suc n) (QuoteJSONString v @ 0x2C # dquote # t)
               = Some (JStr v, 0x2C # dquote # t)"
    by (rule parse_value_string)
  have "parse_members (Suc (Suc n))
          (dquote # quote_units k @ dquote # 0x3A # QuoteJSONString v @ 0x2C # dquote # t)
        = (case parse_members (Suc n) (dquote # t) of
             None \<Rightarrow> None
           | Some (ms, r) \<Rightarrow> Some (add_member k (JStr v) ms, r))"
    apply (subst parse_members.simps)
    apply (simp only: list.case if_False not_not refl if_True string_chars_quote_units
        option.case prod.case skip_ws_Cons [OF not_ws(6)])
    apply (simp only: skip_ws_Cons [OF not_ws(1)] QuoteJSONString_def append_Cons)
    apply (simp only: val [unfolded QuoteJSONString_def append_Cons] option.case prod.case
        skip_ws_Cons [OF not_ws(7)] skip_ws_Cons [OF not_ws(1)] list.case refl if_True)
    apply simp
    done
  then show ?thesis by (simp add: QuoteJSONString_def)
qed

lemma parse_members_last:
  "parse_members (Suc (Suc n)) (QuoteJSONString k @ 0x3A # QuoteJSONString v @ 0x7D # rest)
   = Some ([(k, JStr v)], rest)"
proof -
  have val: "parse_value (Suc n) (QuoteJSONString v @ 0x7D # rest) = Some (JStr v, 0x7D # rest)"
    by (rule parse_value_string)
  have "parse_members (Suc (Suc n))
          (dquote # quote_units k @ dquote # 0x3A # QuoteJSONString v @ 0x7D # rest)
        = Some ([(k, JStr v)], rest)"
    apply (subst parse_members.simps)
    apply (simp only: list.case if_False not_not refl if_True string_chars_quote_units
        option.case prod.case skip_ws_Cons [OF not_ws(6)])
    apply (simp only: QuoteJSONString_def append_Cons skip_ws_Cons [OF not_ws(1)])
    apply (simp only: val [unfolded QuoteJSONString_def append_Cons] option.case prod.case
        skip_ws_Cons [OF not_ws(5)] list.case)
    apply simp
    done
  then show ?thesis by (simp add: QuoteJSONString_def)
qed

lemma keys_distinct:
  "lit ''_id'' \<noteq> lit ''content''" "lit ''_id'' \<noteq> lit ''author''"
  "lit ''content'' \<noteq> lit ''author''"
  by (simp_all add: lit_def)

lemma parse_value_object_open:
  "\<not> is_ws d \<Longrightarrow> d \<noteq> 0x7D \<Longrightarrow>
   parse_value (Suc n) (0x7B # d # ds)
     = (case parse_members n (d # ds) of None \<Rightarrow> None | Some (ms, r) \<Rightarrow> Some (JObj ms, r))"
  by (simp add: parse_value.simps skip_ws_Cons dquote_def)

lemma parse_value_array_open:
  "\<not> is_ws d \<Longrightarrow> d \<noteq> 0x5D \<Longrightarrow>
   parse_value (Suc n) (0x5B # d # ds)
     = (case parse_elements n (d # ds) of None \<Rightarrow> None | Some (vs, r) \<Rightarrow> Some (JArr vs, r))"
  by (simp add: parse_value.simps skip_ws_Cons dquote_def)

lemma parse_value_empty_array: "parse_value (Suc n) (0x5B # 0x5D # r) = Some (JArr [], r)"
  by (simp add: parse_value.simps skip_ws_Cons not_ws dquote_def)

lemma parse_value_object:
  "parse_value (Suc (Suc (Suc (Suc (Suc n))))) (SerializeJSONObject q @ rest)
   = Some (json_of_quote q, rest)"
proof -
  let ?m3 = "QuoteJSONString (lit ''author'') @ 0x3A # QuoteJSONString (author q) @ 0x7D # rest"
  let ?m2 = "QuoteJSONString (lit ''content'') @ 0x3A # QuoteJSONString (content q) @ 0x2C # ?m3"
  let ?m1 = "QuoteJSONString (lit ''_id'') @ 0x3A # QuoteJSONString (qid q) @ 0x2C # ?m2"
  have obj: "SerializeJSONObject q @ rest = 0x7B # ?m1"
    by (simp add: SerializeJSONObject_def punct)
  have hd3: "?m3 = dquote # quote_units (lit ''author'') @ dquote # 0x3A
                # QuoteJSONString (author q) @ 0x7D # rest"
    by (simp add: QuoteJSONString_def)
  have hd2: "?m2 = dquote # quote_units (lit ''content'') @ dquote # 0x3A
                # QuoteJSONString (content q) @ 0x2C # ?m3"
    by (simp add: QuoteJSONString_def)
  have hd1: "?m1 = dquote # quote_units (lit ''_id'') @ dquote # 0x3A
                # QuoteJSONString (qid q) @ 0x2C # ?m2"
    by (simp add: QuoteJSONString_def)
  have p3: "parse_members (Suc (Suc n)) ?m3 = Some ([(lit ''author'', JStr (author q))], rest)"
    by (rule parse_members_last)
  have p2: "parse_members (Suc (Suc (Suc n))) ?m2
              = Some ([(lit ''content'', JStr (content q)), (lit ''author'', JStr (author q))],
                      rest)"
  proof -
    have "parse_members (Suc (Suc (Suc n))) ?m2
            = (case parse_members (Suc (Suc n)) ?m3 of
                 None \<Rightarrow> None
               | Some (ms, r) \<Rightarrow> Some (add_member (lit ''content'') (JStr (content q)) ms, r))"
      unfolding hd3 by (rule parse_members_step)
    then show ?thesis using keys_distinct by (simp add: p3 add_member_def)
  qed
  have p1: "parse_members (Suc (Suc (Suc (Suc n)))) ?m1
              = Some ([(lit ''_id'', JStr (qid q)), (lit ''content'', JStr (content q)),
                       (lit ''author'', JStr (author q))], rest)"
  proof -
    have "parse_members (Suc (Suc (Suc (Suc n)))) ?m1
            = (case parse_members (Suc (Suc (Suc n))) ?m2 of
                 None \<Rightarrow> None
               | Some (ms, r) \<Rightarrow> Some (add_member (lit ''_id'') (JStr (qid q)) ms, r))"
      unfolding hd2 by (rule parse_members_step)
    then show ?thesis using keys_distinct by (simp add: p2 add_member_def)
  qed
  have "parse_value (Suc (Suc (Suc (Suc (Suc n))))) (0x7B # ?m1)
          = (case parse_members (Suc (Suc (Suc (Suc n)))) ?m1 of
               None \<Rightarrow> None
             | Some (ms, r) \<Rightarrow> Some (JObj ms, r))"
    unfolding hd1 by (rule parse_value_object_open) (simp_all add: is_ws_def dquote_def)
  then show ?thesis by (simp add: obj p1 json_of_quote_def)
qed

lemma SerializeJSONObject_Cons: "\<exists>t. SerializeJSONObject q = 0x7B # t"
  by (simp add: SerializeJSONObject_def punct)

lemma join_comma_Cons:
  "\<exists>t. join_comma (map SerializeJSONObject (q # qs)) = 0x7B # t"
  using SerializeJSONObject_Cons [of q] by (cases qs) auto

lemma parse_elements_quotes:
  "qs \<noteq> [] \<Longrightarrow>
   parse_elements (Suc (Suc (Suc (Suc (Suc (length qs + k))))))
       (join_comma (map SerializeJSONObject qs) @ 0x5D # rest)
     = Some (map json_of_quote qs, rest)"
proof (induction qs)
  case Nil
  then show ?case by simp
next
  case (Cons q qs)
  show ?case
  proof (cases qs)
    case Nil
    have "parse_value (Suc (Suc (Suc (Suc (Suc k))))) (SerializeJSONObject q @ 0x5D # rest)
            = Some (json_of_quote q, 0x5D # rest)"
      by (rule parse_value_object)
    then show ?thesis
      unfolding Nil by (subst parse_elements.simps(2)) (simp add: skip_ws_Cons not_ws)
  next
    case (Cons q' qs')
    obtain t where t: "join_comma (map SerializeJSONObject qs) = 0x7B # t"
      using join_comma_Cons [of q' qs'] Cons by auto
    have v: "parse_value (Suc (Suc (Suc (Suc (Suc (length qs + k))))))
               (SerializeJSONObject q @ 0x2C # join_comma (map SerializeJSONObject qs)
                  @ 0x5D # rest)
             = Some (json_of_quote q, 0x2C # join_comma (map SerializeJSONObject qs)
                  @ 0x5D # rest)"
      by (rule parse_value_object)
    have ih: "parse_elements (Suc (Suc (Suc (Suc (Suc (length qs + k))))))
               (join_comma (map SerializeJSONObject qs) @ 0x5D # rest)
              = Some (map json_of_quote qs, rest)"
      using Cons.IH Cons by simp
    have sk: "skip_ws (join_comma (map SerializeJSONObject qs) @ 0x5D # rest)
               = join_comma (map SerializeJSONObject qs) @ 0x5D # rest"
      unfolding t by (simp add: skip_ws_Cons not_ws)
    have "join_comma (map SerializeJSONObject (q # qs)) @ 0x5D # rest
            = SerializeJSONObject q @ 0x2C # join_comma (map SerializeJSONObject qs)
                  @ 0x5D # rest"
      unfolding Cons by (simp add: punct)
    then show ?thesis
      by (subst parse_elements.simps(2)) (simp add: v skip_ws_Cons not_ws sk ih)
  qed
qed

lemma length_join_comma: "length qs \<le> length (join_comma (map SerializeJSONObject qs))"
proof (induction qs)
  case Nil
  show ?case by simp
next
  case (Cons q qs)
  obtain t where t: "SerializeJSONObject q = 0x7B # t"
    using SerializeJSONObject_Cons by blast
  show ?case
    using Cons by (cases qs) (simp_all add: t)
qed

lemma parse_json_text_stringify: "parse_json_text (JSON_stringify qs) = Some (json_of_quotes qs)"
proof (cases qs)
  case Nil
  have s: "JSON_stringify [] = [0x5B, 0x5D]"
    by (simp add: JSON_stringify_def punct)
  have "parse_json_text [0x5B, 0x5D] = Some (JArr [])"
    unfolding parse_json_text_def skip_ws_Cons [OF not_ws(2)] parse_value_empty_array
    by (simp add: skip_ws_def)
  then show ?thesis
    unfolding Nil s by (simp add: json_of_quotes_def)
next
  case (Cons q qs')
  define body where "body = join_comma (map SerializeJSONObject qs)"
  obtain t where t: "body = 0x7B # t"
    unfolding body_def Cons using join_comma_Cons by blast
  have "length qs \<le> length body"
    unfolding body_def by (rule length_join_comma)
  moreover have "1 \<le> length qs" unfolding Cons by simp
  ultimately have "length qs + 5 \<le> 2 * length (0x5B # body @ [0x5D])" by simp
  then obtain k where "2 * length (0x5B # body @ [0x5D]) = length qs + 5 + k"
    using le_Suc_ex by blast
  then have fuel: "2 * length (0x5B # body @ [0x5D])
                     = Suc (Suc (Suc (Suc (Suc (length qs + k)))))"
    by simp
  have ne: "qs \<noteq> []" unfolding Cons by simp
  have els: "parse_elements (Suc (Suc (Suc (Suc (Suc (length qs + k)))))) (body @ [0x5D])
               = Some (map json_of_quote qs, [])"
    unfolding body_def by (rule parse_elements_quotes [OF ne])
  have "parse_value (Suc (2 * length (0x5B # body @ [0x5D]))) (0x5B # body @ [0x5D])
          = Some (JArr (map json_of_quote qs), [])"
    unfolding fuel using els unfolding t
    by (simp add: parse_value_array_open is_ws_def)
  moreover have "JSON_stringify qs = 0x5B # body @ [0x5D]"
    by (simp add: JSON_stringify_def body_def punct)
  ultimately show ?thesis
    by (simp add: parse_json_text_def skip_ws_Cons not_ws json_of_quotes_def)
       (simp add: skip_ws_def)
qed

lemma quote_of_json_of_quote: "quote_of_json (json_of_quote q) = Some q"
  using keys_distinct by (simp add: json_of_quote_def)

lemma quotes_of_json_of_quotes: "quotes_of_json (json_of_quotes qs) = Some qs"
  by (induction qs) (simp_all add: json_of_quotes_def quote_of_json_of_quote)

subsection \<open>The fuel of the parser\<close>

text \<open>Every parser consumes some of the text.\<close>

lemma skip_ws_length: "length (skip_ws s) \<le> length s"
  by (simp add: skip_ws_def length_dropWhile_le)

lemma cons_unit_Some: "cons_unit c x = Some (t, r) \<Longrightarrow> \<exists>t'. x = Some (t', r)"
  by (auto simp: cons_unit_def split: option.splits)

lemma string_chars_shorter: "string_chars s = Some (t, r) \<Longrightarrow> length r < length s"
proof (induction s arbitrary: t r rule: string_chars.induct)
  case 1
  then show ?case by simp
next
  case (2 c cs)
  then show ?case
    by (fastforce split: if_splits list.splits option.splits dest!: cons_unit_Some)
qed

lemma strip_prefix_length: "strip_prefix p s = Some r \<Longrightarrow> length s = length p + length r"
  by (induction p s rule: strip_prefix.induct) (auto split: if_splits)

lemma number_digits_length: "number_digits s = Some (t, r) \<Longrightarrow> length r \<le> length s"
  by (auto simp: number_digits_def length_dropWhile_le split: if_splits)

lemma number_frac_length: "number_frac s = Some (t, r) \<Longrightarrow> length r \<le> length s"
  by (auto simp: number_frac_def split: list.splits if_splits option.splits
      dest!: number_digits_length)

lemma number_exp_length: "number_exp s = Some (t, r) \<Longrightarrow> length r \<le> length s"
  by (auto simp: number_exp_def split: list.splits if_splits option.splits
      dest!: number_digits_length)

lemma number_int_shorter: "number_int s = Some (t, r) \<Longrightarrow> length r < length s"
  by (auto simp: number_int_def less_Suc_eq_le length_dropWhile_le split: list.splits if_splits)

lemma number_unsigned_shorter: "number_unsigned s = Some (t, r) \<Longrightarrow> length r < length s"
  by (auto simp: number_unsigned_def split: option.splits
      dest!: number_int_shorter number_frac_length number_exp_length)

lemma number_shorter: "number s = Some (t, r) \<Longrightarrow> length r < length s"
  by (auto simp: number_def split: list.splits if_splits option.splits
      dest!: number_unsigned_shorter)

lemma length_lit: "length (lit s) = length s"
  by (simp add: lit_def)

lemma skip_ws_eq_Cons: "skip_ws s = c # cs \<Longrightarrow> length cs < length s"
  using skip_ws_length [of s] by simp

lemma skip_ws_less: "length r < length (skip_ws s) \<Longrightarrow> length r < length s"
  using skip_ws_length [of s] by simp

lemma parse_shorter_all:
  "(\<forall>s v r. parse_value n s = Some (v, r) \<longrightarrow> length r < length s)
   \<and> (\<forall>s vs r. parse_elements n s = Some (vs, r) \<longrightarrow> length r < length s)
   \<and> (\<forall>s ms r. parse_members n s = Some (ms, r) \<longrightarrow> length r < length s)"
proof (induction n)
  case 0
  show ?case by (simp add: parse_value.simps parse_elements.simps parse_members.simps)
next
  case (Suc n)
  then have ihv: "\<And>s v r. parse_value n s = Some (v, r) \<Longrightarrow> length r < length s"
    and ihe: "\<And>s vs r. parse_elements n s = Some (vs, r) \<Longrightarrow> length r < length s"
    and ihm: "\<And>s ms r. parse_members n s = Some (ms, r) \<Longrightarrow> length r < length s"
    by blast+
  have v: "length r < length s" if "parse_value (Suc n) s = Some (v, r)" for s v r
    using that
    by (auto simp: parse_value.simps length_lit split: list.splits if_splits option.splits
        dest!: string_chars_shorter skip_ws_eq_Cons ihe ihm strip_prefix_length number_shorter)
  have e: "length r < length s" if "parse_elements (Suc n) s = Some (vs, r)" for s vs r
    using that
    by (auto simp: parse_elements.simps split: list.splits if_splits option.splits
        dest!: skip_ws_eq_Cons ihv ihe skip_ws_less)
  have m: "length r < length s" if "parse_members (Suc n) s = Some (ms, r)" for s ms r
    using that
    by (auto simp: parse_members.simps split: list.splits if_splits option.splits
        dest!: string_chars_shorter skip_ws_eq_Cons ihv ihm skip_ws_less)
  from v e m show ?case by blast
qed

lemma parse_shorter:
  "parse_value n s = Some (v, r) \<Longrightarrow> length r < length s"
  "parse_elements n s = Some (vs, r) \<Longrightarrow> length r < length s"
  "parse_members n s = Some (ms, r) \<Longrightarrow> length r < length s"
  using parse_shorter_all [of n] by blast+

lemma parse_value_no_fuel:
  "c \<noteq> 0x5B \<Longrightarrow> c \<noteq> 0x7B \<Longrightarrow> parse_value (Suc k) (c # cs) = parse_value (Suc n) (c # cs)"
  by (simp add: parse_value.simps)

lemma parse_enough_all:
  "(\<forall>s x m. parse_value n s = Some x \<longrightarrow> 2 * length s + 1 \<le> m \<longrightarrow> parse_value m s = Some x)
   \<and> (\<forall>s x m. parse_elements n s = Some x \<longrightarrow> 2 * length s + 2 \<le> m \<longrightarrow>
          parse_elements m s = Some x)
   \<and> (\<forall>s x m. parse_members n s = Some x \<longrightarrow> 2 * length s + 2 \<le> m \<longrightarrow>
          parse_members m s = Some x)"
proof (induction n)
  case 0
  show ?case by (simp add: parse_value.simps parse_elements.simps parse_members.simps)
next
  case (Suc n)
  then have ihv: "\<And>s x m. parse_value n s = Some x \<Longrightarrow> 2 * length s + 1 \<le> m \<Longrightarrow>
                    parse_value m s = Some x"
    and ihe: "\<And>s x m. parse_elements n s = Some x \<Longrightarrow> 2 * length s + 2 \<le> m \<Longrightarrow>
                    parse_elements m s = Some x"
    and ihm: "\<And>s x m. parse_members n s = Some x \<Longrightarrow> 2 * length s + 2 \<le> m \<Longrightarrow>
                    parse_members m s = Some x"
    by blast+
  have v: "parse_value m s = Some x"
    if a: "parse_value (Suc n) s = Some x" and b: "2 * length s + 1 \<le> m" for s x m
  proof -
    from b obtain m' where m: "m = Suc m'" by (cases m) auto
    from a obtain c cs where s: "s = c # cs"
      by (cases s) (auto simp: parse_value.simps)
    from b have b': "2 * length cs + 2 \<le> m'" unfolding m s by simp
    consider (arr) "c = 0x5B" | (obj) "c = 0x7B" | (other) "c \<noteq> 0x5B" "c \<noteq> 0x7B"
      by blast
    then show ?thesis
    proof cases
      case arr
      from a obtain d ds where sk: "skip_ws cs = d # ds"
        unfolding s arr by (cases "skip_ws cs") (auto simp: parse_value.simps dquote_def)
      have ld: "length (d # ds) \<le> length cs"
        using skip_ws_length [of cs] unfolding sk .
      show ?thesis
      proof (cases "d = 0x5D")
        case True
        with a show ?thesis
          unfolding m s arr by (simp add: parse_value.simps sk dquote_def)
      next
        case False
        with a obtain vs r where pe: "parse_elements n (d # ds) = Some (vs, r)"
          and x: "x = (JArr vs, r)"
          unfolding s arr
          by (auto simp: parse_value.simps sk dquote_def split: option.splits)
        have "parse_elements m' (d # ds) = Some (vs, r)"
          using ihe [OF pe] b' ld by simp
        with False show ?thesis
          unfolding m s arr x by (simp add: parse_value.simps sk dquote_def)
      qed
    next
      case obj
      from a obtain d ds where sk: "skip_ws cs = d # ds"
        unfolding s obj by (cases "skip_ws cs") (auto simp: parse_value.simps dquote_def)
      have ld: "length (d # ds) \<le> length cs"
        using skip_ws_length [of cs] unfolding sk .
      show ?thesis
      proof (cases "d = 0x7D")
        case True
        with a show ?thesis
          unfolding m s obj by (simp add: parse_value.simps sk dquote_def)
      next
        case False
        with a obtain ms r where pm: "parse_members n (d # ds) = Some (ms, r)"
          and x: "x = (JObj ms, r)"
          unfolding s obj
          by (auto simp: parse_value.simps sk dquote_def split: option.splits)
        have "parse_members m' (d # ds) = Some (ms, r)"
          using ihm [OF pm] b' ld by simp
        with False show ?thesis
          unfolding m s obj x by (simp add: parse_value.simps sk dquote_def)
      qed
    next
      case other
      then show ?thesis
        using a parse_value_no_fuel [of c m' cs n] unfolding m s by simp
    qed
  qed
  have e: "parse_elements m s = Some x"
    if a: "parse_elements (Suc n) s = Some x" and b: "2 * length s + 2 \<le> m" for s x m
  proof -
    from b obtain m' where m: "m = Suc m'" by (cases m) auto
    from a obtain v r where pv: "parse_value n s = Some (v, r)"
      by (auto simp: parse_elements.simps split: option.splits)
    have pv': "parse_value m' s = Some (v, r)"
      using ihv [OF pv] b unfolding m by simp
    have lr: "length r < length s" using pv by (rule parse_shorter)
    from a obtain c cs where sk: "skip_ws r = c # cs"
      by (cases "skip_ws r") (auto simp: parse_elements.simps pv)
    have lc: "length cs < length r" using sk by (rule skip_ws_eq_Cons)
    show ?thesis
    proof (cases "c = 0x2C")
      case True
      with a obtain vs r' where pe: "parse_elements n (skip_ws cs) = Some (vs, r')"
        and x: "x = (v # vs, r')"
        by (auto simp: parse_elements.simps pv sk split: option.splits)
      have "2 * length (skip_ws cs) + 2 \<le> m'"
        using skip_ws_length [of cs] lc lr b unfolding m by simp
      from ihe [OF pe this] True show ?thesis
        unfolding m x by (simp add: parse_elements.simps pv' sk)
    next
      case False
      with a show ?thesis
        unfolding m by (simp add: parse_elements.simps pv pv' sk)
    qed
  qed
  have mb: "parse_members m s = Some x"
    if a: "parse_members (Suc n) s = Some x" and b: "2 * length s + 2 \<le> m" for s x m
  proof -
    from b obtain m' where m: "m = Suc m'" by (cases m) auto
    from a obtain qs where s: "s = dquote # qs"
      by (cases s) (auto simp: parse_members.simps split: if_splits)
    from a obtain k r where sc: "string_chars qs = Some (k, r)"
      unfolding s by (auto simp: parse_members.simps split: option.splits)
    have lr: "length r < length qs" using sc by (rule string_chars_shorter)
    from a obtain c cs where sk: "skip_ws r = c # cs"
      unfolding s by (cases "skip_ws r") (auto simp: parse_members.simps sc)
    have lc: "length cs < length r" using sk by (rule skip_ws_eq_Cons)
    from a have c: "c = 0x3A"
      unfolding s by (auto simp: parse_members.simps sc sk split: if_splits)
    from a obtain v r' where pv: "parse_value n (skip_ws cs) = Some (v, r')"
      unfolding s by (auto simp: parse_members.simps sc sk c split: option.splits)
    have lcs: "length (skip_ws cs) \<le> length cs" by (rule skip_ws_length)
    have "2 * length (skip_ws cs) + 1 \<le> m'"
      using lcs lc lr b unfolding m s by simp
    from ihv [OF pv this] have pv': "parse_value m' (skip_ws cs) = Some (v, r')" .
    have lr': "length r' < length (skip_ws cs)" using pv by (rule parse_shorter)
    from a obtain d ds where sk': "skip_ws r' = d # ds"
      unfolding s by (cases "skip_ws r'") (auto simp: parse_members.simps sc sk c pv)
    have ld: "length ds < length r'" using sk' by (rule skip_ws_eq_Cons)
    show ?thesis
    proof (cases "d = 0x2C")
      case True
      with a obtain ms r'' where pm: "parse_members n (skip_ws ds) = Some (ms, r'')"
        and x: "x = (add_member k v ms, r'')"
        unfolding s by (auto simp: parse_members.simps sc sk c pv sk' split: option.splits)
      have "2 * length (skip_ws ds) + 2 \<le> m'"
        using skip_ws_length [of ds] ld lr' lcs lc lr b unfolding m s by simp
      from ihm [OF pm this] True show ?thesis
        unfolding m s x by (simp add: parse_members.simps sc sk c pv' sk')
    next
      case False
      with a show ?thesis
        unfolding m s by (simp add: parse_members.simps sc sk c pv pv' sk')
    qed
  qed
  from v e mb show ?case by blast
qed

text \<open>
  The fuel that \<open>parse_json_text\<close> takes from the length of the text is enough: a
  value that any amount of fuel finds is the one it returns.
\<close>

lemma parse_json_text_enough:
  assumes "parse_value n (skip_ws s) = Some (v, r)" and "skip_ws r = []"
  shows "parse_json_text s = Some v"
proof -
  have "2 * length (skip_ws s) + 1 \<le> Suc (2 * length s)"
    using skip_ws_length [of s] by simp
  with assms(1) have "parse_value (Suc (2 * length s)) (skip_ws s) = Some (v, r)"
    using parse_enough_all [of n] by blast
  with assms(2) show ?thesis by (simp add: parse_json_text_def)
qed

lemma parse_json_text_iff:
  "parse_json_text s = Some v \<longleftrightarrow>
     (\<exists>n r. parse_value n (skip_ws s) = Some (v, r) \<and> skip_ws r = [])"
proof
  assume "parse_json_text s = Some v"
  then obtain r where "parse_value (Suc (2 * length s)) (skip_ws s) = Some (v, r)"
    and "skip_ws r = []"
    by (auto simp: parse_json_text_def split: option.splits if_splits)
  then show "\<exists>n r. parse_value n (skip_ws s) = Some (v, r) \<and> skip_ws r = []"
    by blast
next
  assume "\<exists>n r. parse_value n (skip_ws s) = Some (v, r) \<and> skip_ws r = []"
  then show "parse_json_text s = Some v"
    using parse_json_text_enough by blast
qed

subsection \<open>Examples\<close>

text \<open>Some texts and their values, and some texts that are not JSON.\<close>

lemma parse_json_text_example:
  \<open>parse_json_text (lit '' [ {"a" : "x/", "b":[1.5e3,true,null], "a":"y"} ] '')
     = Some (JArr [JObj [(lit ''a'', JStr (lit ''y'')),
                         (lit ''b'', JArr [JNum (lit ''1.5e3''), JBool True, JNull])]])\<close>
  by code_simp

lemma parse_json_text_escapes:
  \<open>parse_json_text (lit ''["'' @ [backslash] @ lit ''u0041'' @ [backslash] @ lit ''n"]'')
     = Some (JArr [JStr [0x41, 0x0A]])\<close>
  by code_simp

lemma parse_json_text_rejects:
  \<open>parse_json_text (lit ''[1,]'') = None \<and> parse_json_text (lit ''{"a":1'') = None
   \<and> parse_json_text (lit ''01'') = None \<and> parse_json_text [] = None
   \<and> parse_json_text (lit ''[] x'') = None\<close>
  by code_simp

text \<open>The text of a list of one quote, as an example.\<close>

lemma JSON_stringify_example:
  \<open>JSON_stringify [quote_1] = lit ''[{"_id":"1","content":"A","author":"X"}]''\<close>
  by (simp add: JSON_stringify_def SerializeJSONObject_def QuoteJSONString_def quote_1_def
      lit_def escape_def dquote_def is_leading_def is_trailing_def)

lemma JSON_stringify_nonempty: "JSON_stringify qs \<noteq> []"
  by (simp add: JSON_stringify_def punct)

section \<open>Properties of loading and saving\<close>

text \<open>
  The liked list starts as the empty array, and the initializer does not throw, when
  reading the storage throws, when the storage holds nothing (or the empty string)
  under the key, and when \<open>JSON.parse\<close> throws on what it holds. This is so for every
  \<open>parse\<close>, whatever texts it rejects.
\<close>

lemma likedQuotes_init_fallback:
  assumes "(\<exists>e. read_fails st = Some e)
         \<or> (read_fails st = None \<and> items st LS_KEY = None)
         \<or> (read_fails st = None \<and> items st LS_KEY = Some [])
         \<or> (\<exists>raw e. read_fails st = None \<and> items st LS_KEY = Some raw \<and> parse raw = Inl e)"
  shows "likedQuotes_init parse st = Inr (JArr [])"
  using assms by (auto simp: likedQuotes_init_def try_catch_def getItem_def)

lemma likedQuotes_init_fallback_example:
  "likedQuotes_init (JSON_parse (Exn None))
      \<lparr>read_fails = Some (Exn None), write_fails = None, items = Map.empty\<rparr> = Inr (JArr [])
   \<and> likedQuotes_init (JSON_parse (Exn None))
      \<lparr>read_fails = None, write_fails = None, items = Map.empty\<rparr> = Inr (JArr [])
   \<and> likedQuotes_init (JSON_parse (Exn None))
      \<lparr>read_fails = None, write_fails = None, items = [LS_KEY \<mapsto> lit ''{oops'']\<rparr>
        = Inr (JArr [])"
proof -
  have bad: "parse_json_text (lit ''{oops'') = None"
    by code_simp
  have a: "likedQuotes_init (JSON_parse (Exn None))
      \<lparr>read_fails = Some (Exn None), write_fails = None, items = Map.empty\<rparr> = Inr (JArr [])"
    using likedQuotes_init_fallback
      [of "\<lparr>read_fails = Some (Exn None), write_fails = None, items = Map.empty\<rparr>"
          "JSON_parse (Exn None)"]
    by simp
  have b: "likedQuotes_init (JSON_parse (Exn None))
      \<lparr>read_fails = None, write_fails = None, items = Map.empty\<rparr> = Inr (JArr [])"
    using likedQuotes_init_fallback
      [of "\<lparr>read_fails = None, write_fails = None, items = Map.empty\<rparr>"
          "JSON_parse (Exn None)"]
    by simp
  have c: "likedQuotes_init (JSON_parse (Exn None))
      \<lparr>read_fails = None, write_fails = None, items = [LS_KEY \<mapsto> lit ''{oops'']\<rparr>
        = Inr (JArr [])"
    using likedQuotes_init_fallback
      [of "\<lparr>read_fails = None, write_fails = None, items = [LS_KEY \<mapsto> lit ''{oops'']\<rparr>"
          "JSON_parse (Exn None)"] bad
    by (simp add: JSON_parse_def)
  from a b c show ?thesis by blast
qed

text \<open>
  The initializer never throws, whatever the storage holds and whatever \<open>parse\<close>
  does.
\<close>

lemma likedQuotes_init_total: "\<exists>v. likedQuotes_init parse st = Inr v"
  by (auto simp: likedQuotes_init_def try_catch_def split: sum.splits option.splits)

text \<open>
  A stored text that is JSON is loaded as the value it denotes, whatever that value
  is: the initializer has no check that it is an array of quotes. The first render
  throws on every loaded value that is not an array, and on an array with a \<open>null\<close>
  in it.
\<close>

lemma likedQuotes_init_loads_parsed:
  assumes "read_fails st = None" and "items st LS_KEY = Some raw" and "raw \<noteq> []"
    and "parse_json_text raw = Some v"
  shows "likedQuotes_init (JSON_parse err) st = Inr v"
  using assms by (simp add: likedQuotes_init_def try_catch_def getItem_def JSON_parse_def)

lemma render_likedIds_not_array: "(\<forall>vs. v \<noteq> JArr vs) \<Longrightarrow> render_likedIds err v = Inl err"
  by (cases v) simp_all

lemma render_likedIds_null_element: "render_likedIds err (JArr [JNull]) = Inl err"
  by simp

lemma render_likedIds_quotes:
  "render_likedIds err (json_of_quotes qs) = Inr (map (\<lambda>q. Some (JStr (qid q))) qs)"
  by (induction qs) (simp_all add: json_of_quotes_def json_of_quote_def)

text \<open>
  C5. On a missing key, an unreadable storage or malformed stored content the liked
  list is to start as the empty list, with no exception at startup. The initializer
  does so in the cases of \<open>likedQuotes_init_fallback\<close>, but not for stored content
  that is JSON and not a liked list: with the text \<open>null\<close> under the key it returns
  \<open>null\<close>, which is not the empty array, and the first render throws where it maps
  over the liked list.
\<close>

theorem likedQuotes_init_stored_null:
  "likedQuotes_init (JSON_parse err)
     \<lparr>read_fails = None, write_fails = None, items = [LS_KEY \<mapsto> lit ''null'']\<rparr> = Inr JNull
   \<and> likedQuotes_init (JSON_parse err)
     \<lparr>read_fails = None, write_fails = None, items = [LS_KEY \<mapsto> lit ''null'']\<rparr>
       \<noteq> Inr (JArr [])
   \<and> render_likedIds type_error JNull = Inl type_error"
proof -
  have "parse_json_text (lit ''null'') = Some JNull" by code_simp
  then have "likedQuotes_init (JSON_parse err)
     \<lparr>read_fails = None, write_fails = None, items = [LS_KEY \<mapsto> lit ''null'']\<rparr> = Inr JNull"
    by (simp add: likedQuotes_init_def try_catch_def getItem_def JSON_parse_def lit_def)
  then show ?thesis by simp
qed

text \<open>
  C6. The text that \<open>JSON.stringify\<close> writes for a liked list parses, and it parses to
  the array of the same quote objects: read back through \<open>_id\<close>, \<open>content\<close> and
  \<open>author\<close>, the same quotes in the same order. So a liked list that the effect has
  saved is the one the initializer loads from that storage.
\<close>

theorem liked_list_round_trip:
  "parse_json_text (JSON_stringify qs) = Some (json_of_quotes qs)
   \<and> quotes_of_json (json_of_quotes qs) = Some qs
   \<and> (write_fails st = None \<and> read_fails st = None \<longrightarrow>
        likedQuotes_init (JSON_parse err) (persist_liked JSON_stringify qs st)
          = Inr (json_of_quotes qs))"
proof (intro conjI impI)
  show "parse_json_text (JSON_stringify qs) = Some (json_of_quotes qs)"
    by (rule parse_json_text_stringify)
  show "quotes_of_json (json_of_quotes qs) = Some qs"
    by (rule quotes_of_json_of_quotes)
  assume "write_fails st = None \<and> read_fails st = None"
  then show "likedQuotes_init (JSON_parse err) (persist_liked JSON_stringify qs st)
          = Inr (json_of_quotes qs)"
    by (simp add: likedQuotes_init_def try_catch_def getItem_def persist_liked_def setItem_def
        JSON_parse_def parse_json_text_stringify JSON_stringify_nonempty)
qed

theorem liked_list_round_trip_witness:
  "likedQuotes_init (JSON_parse (Exn None))
      (persist_liked JSON_stringify [quote_2, quote_1]
         \<lparr>read_fails = None, write_fails = None, items = Map.empty\<rparr>)
     = Inr (json_of_quotes [quote_2, quote_1])
   \<and> quotes_of_json (json_of_quotes [quote_2, quote_1]) = Some [quote_2, quote_1]"
  using liked_list_round_trip
    [of "[quote_2, quote_1]" "\<lparr>read_fails = None, write_fails = None, items = Map.empty\<rparr>"
        "Exn None"]
  by simp

end
